theory Spec2Isabelle
  imports Complex_Main "HOL-Library.Word"
begin

unbundle bit_operations_syntax

section \<open>Vectors and the light trajectory\<close>

text \<open>
  The scalars of the program are C \<^verbatim>\<open>float\<close>s. Finite values are idealised as reals
  (no rounding); \<^verbatim>\<open>sinf\<close> and \<^verbatim>\<open>cosf\<close> are the real sine and cosine.
  \<^verbatim>\<open>glm::vec3\<close> and \<^verbatim>\<open>glm::vec4\<close> are tuples, with componentwise arithmetic
  as glm defines it.
\<close>

type_synonym vec3 = "real \<times> real \<times> real"
type_synonym vec4 = "real \<times> real \<times> real \<times> real"

fun vx :: "vec3 \<Rightarrow> real" where "vx (a, b, c) = a"
fun vy :: "vec3 \<Rightarrow> real" where "vy (a, b, c) = b"
fun vz :: "vec3 \<Rightarrow> real" where "vz (a, b, c) = c"

fun vadd :: "vec3 \<Rightarrow> vec3 \<Rightarrow> vec3" where
  "vadd (a, b, c) (d, e, f) = (a + d, b + e, c + f)"

fun vsub :: "vec3 \<Rightarrow> vec3 \<Rightarrow> vec3" where
  "vsub (a, b, c) (d, e, f) = (a - d, b - e, c - f)"

fun vmul :: "vec3 \<Rightarrow> vec3 \<Rightarrow> vec3" where
  "vmul (a, b, c) (d, e, f) = (a * d, b * e, c * f)"

fun vscale :: "vec3 \<Rightarrow> real \<Rightarrow> vec3" where
  "vscale (a, b, c) k = (a * k, b * k, c * k)"

fun dot :: "vec3 \<Rightarrow> vec3 \<Rightarrow> real" where
  "dot (a, b, c) (d, e, f) = a * d + b * e + c * f"

text \<open>
  \<^verbatim>\<open>glm::normalize(v)\<close> is \<^verbatim>\<open>v * inversesqrt(dot(v, v))\<close>, and
  \<^verbatim>\<open>glm::radians(d)\<close> is \<^verbatim>\<open>d * pi / 180\<close>.
\<close>

definition normalize_vec :: "vec3 \<Rightarrow> vec3" where
  "normalize_vec v = vscale v (1 / sqrt (dot v v))"

definition radians :: "real \<Rightarrow> real" where
  "radians d = d * pi / 180"

text \<open>Scaling factor and offset of the lights' movement curve (scene.cpp, lines 16-19).\<close>

definition scale :: vec3 where "scale = (13, 2, 13)"
definition offset :: vec3 where "offset = (0, 3, 0)"

text \<open>
  The lambda \<^verbatim>\<open>lissajous\<close> (scene.cpp, lines 22-25) on the reals: the value that the
  lambda has for finite arguments when none of its products overflows, as
  \<open>lissajous_binary32_no_overflow\<close> below shows of the lambda in the arithmetic of the code.
  It is the form in which the positions of the lights are stated.
\<close>

fun lissajous :: "vec4 \<Rightarrow> real \<Rightarrow> vec3" where
  "lissajous (px, py, pz, pw) t = (sin (px * t), cos (py * t), sin (pz * t) * cos (pw * t))"

subsection \<open>IEEE values\<close>

text \<open>
  A \<^verbatim>\<open>float\<close> where it matters that it may not be a number: a finite value, one of the two
  infinities, or NaN.
\<close>

datatype ieee_float = Fin real | PInf | NInf | NaN

subsection \<open>The trajectory in binary32\<close>

text \<open>
  The lambda \<^verbatim>\<open>lissajous\<close> (scene.cpp, lines 22-25) in the arithmetic of the code. Its
  arguments and its result are \<^verbatim>\<open>float\<close>s, which may be infinite or NaN. A product of two
  finite values whose magnitude reaches \<open>2^128 - 2^103\<close> rounds to an infinity (IEEE 754,
  round to nearest, binary32); an infinity times zero is NaN; \<^verbatim>\<open>sinf\<close> and \<^verbatim>\<open>cosf\<close> of
  an infinity or of NaN are NaN. Rounding of finite results is not modelled: it is monotone
  and keeps \<open>-1\<close> and \<open>1\<close>, so it takes no value out of the range between them.
\<close>

definition FLT_OVERFLOW :: real where
  "FLT_OVERFLOW = 2 ^ 128 - 2 ^ 103"

fun fmul :: "ieee_float \<Rightarrow> ieee_float \<Rightarrow> ieee_float" where
  "fmul (Fin a) (Fin b) =
     (if FLT_OVERFLOW \<le> a * b then PInf
      else if a * b \<le> - FLT_OVERFLOW then NInf
      else Fin (a * b))"
| "fmul NaN y = NaN"
| "fmul x NaN = NaN"
| "fmul (Fin a) PInf = (if a = 0 then NaN else if 0 < a then PInf else NInf)"
| "fmul (Fin a) NInf = (if a = 0 then NaN else if 0 < a then NInf else PInf)"
| "fmul PInf (Fin b) = (if b = 0 then NaN else if 0 < b then PInf else NInf)"
| "fmul NInf (Fin b) = (if b = 0 then NaN else if 0 < b then NInf else PInf)"
| "fmul PInf PInf = PInf"
| "fmul PInf NInf = NInf"
| "fmul NInf PInf = NInf"
| "fmul NInf NInf = PInf"

fun sinf :: "ieee_float \<Rightarrow> ieee_float" where
  "sinf (Fin x) = Fin (sin x)"
| "sinf x = NaN"

fun cosf :: "ieee_float \<Rightarrow> ieee_float" where
  "cosf (Fin x) = Fin (cos x)"
| "cosf x = NaN"

fun lissajous_binary32 ::
  "ieee_float \<times> ieee_float \<times> ieee_float \<times> ieee_float \<Rightarrow> ieee_float \<Rightarrow>
   ieee_float \<times> ieee_float \<times> ieee_float" where
  "lissajous_binary32 (px, py, pz, pw) t =
     (sinf (fmul px t), cosf (fmul py t), fmul (sinf (fmul pz t)) (cosf (fmul pw t)))"

text \<open>A \<^verbatim>\<open>float\<close> that is a number between \<open>-1\<close> and \<open>1\<close>.\<close>

fun in_unit_range :: "ieee_float \<Rightarrow> bool" where
  "in_unit_range (Fin x) = (- 1 \<le> x \<and> x \<le> 1)"
| "in_unit_range x = False"


section \<open>The scene\<close>

text \<open>
  The one scalar of the program that a division produces is the ambient intensity
  \<^verbatim>\<open>1e-3f / numPointLights\<close>, stored as the fourth component of every light colour.
  It is kept as an IEEE value, so that a zero divisor is visible in the model:
  a positive numerator over zero is \<open>+inf\<close>, a negative one \<open>-inf\<close>, zero over zero is NaN.
\<close>

definition fdiv :: "real \<Rightarrow> real \<Rightarrow> ieee_float" where
  "fdiv a b =
     (if b \<noteq> 0 then Fin (a / b)
      else if 0 < a then PInf else if a < 0 then NInf else NaN)"

type_synonym color4 = "real \<times> real \<times> real \<times> ieee_float"

fun cw :: "color4 \<Rightarrow> ieee_float" where "cw (r, g, b, a) = a"

type_synonym GLuint = "32 word"

text \<open>\<^verbatim>\<open>struct PointLight\<close> and \<^verbatim>\<open>struct SpotLight\<close> of the scene's header.\<close>

record PointLight =
  position :: vec3
  color :: color4
  movement :: vec4

record SpotLight = PointLight +
  direction :: vec3
  cutOff :: real
  outerCutOff :: real

text \<open>
  A mesh is used through \<^verbatim>\<open>GetVAO()\<close> and \<^verbatim>\<open>GetIBOSize()\<close> only; the mesh class is
  not part of the sources at hand.
\<close>

record mesh =
  GetVAO :: GLuint
  GetIBOSize :: int

datatype LoadedTextures =
  White | Grey | Blue | CheckerBoard | Diffuse | Normal | Specular | Occlusion

text \<open>The fields of \<^verbatim>\<open>class Scene\<close>; a null mesh pointer is \<open>None\<close>.\<close>

record scene =
  loadedTextures :: "LoadedTextures \<Rightarrow> GLuint"
  numCubes :: int
  cubePositions :: "vec3 list"
  numPointLights :: int
  pointLights :: "PointLight list"
  numSpotLights :: int
  spotLights :: "SpotLight list"
  vao :: GLuint
  quad :: "mesh option"
  cube :: "mesh option"
  cubeAdjacency :: "mesh option"
  instancingBuffer :: GLuint
  transformBlockUBO :: GLuint

text \<open>
  A \<^verbatim>\<open>std::vector\<close> indexed out of range is undefined behaviour, and so is a call
  through a null mesh pointer; the model stops with \<open>OutOfBounds\<close> or \<open>NullPointer\<close>
  there. \<^verbatim>\<open>reserve\<close> with a negative \<^verbatim>\<open>int\<close> (converted to a huge \<^verbatim>\<open>size_t\<close>) throws
  \<^verbatim>\<open>std::length_error\<close>, which nothing catches.
\<close>

datatype container = CubePositionsVec | PointLightsVec | SpotLightsVec | InstanceDataVec

datatype error = LengthError | OutOfBounds container | NullPointer

subsection \<open>Initialisation\<close>

text \<open>
  What the collaborators of \<^verbatim>\<open>Scene::Init\<close> return: the geometry factory, the names
  OpenGL generates, and the textures created. \<^verbatim>\<open>getRandom\<close> is not part of the sources
  at hand either: \<open>gr k lo hi\<close> is what its \<open>k\<close>-th call returns for the arguments
  \<open>lo\<close> and \<open>hi\<close>, and the number of calls made so far is threaded through \<open>Init\<close>.
\<close>

record init_env =
  CreateQuadNormalTangentTex :: mesh
  CreateCubeNormalTangentTex :: mesh
  CreateCubeAdjacency :: mesh
  glGenVertexArrays :: GLuint
  glGenBuffers_instancing :: GLuint
  glGenBuffers_transform :: GLuint
  createdTextures :: "LoadedTextures \<Rightarrow> GLuint"

type_synonym rng = "nat \<Rightarrow> real \<Rightarrow> real \<Rightarrow> real"

text \<open>The loop of lines 125-132.\<close>

function Init_cubes :: "rng \<Rightarrow> int \<Rightarrow> int \<Rightarrow> vec3 list \<times> nat \<Rightarrow> vec3 list \<times> nat" where
  "Init_cubes gr i n (ps, k) =
     (if i < n
      then Init_cubes gr (i + 1) n
             (ps @ [(gr k (- 5) 5, gr (k + 1) 1 5, gr (k + 2) (- 5) 5)], k + 3)
      else (ps, k))"
  by pat_completeness auto
termination
  by (relation "measure (\<lambda>(gr, i, n, st). nat (n - i))") auto

text \<open>The loop of lines 145-159.\<close>

function Init_pointLights ::
  "rng \<Rightarrow> ieee_float \<Rightarrow> int \<Rightarrow> int \<Rightarrow> PointLight list \<times> nat \<Rightarrow> PointLight list \<times> nat" where
  "Init_pointLights gr ambientIntensity i n (ls, k) =
     (if i < n
      then
        let p = (gr k (- 2) 2, gr (k + 1) (- 2) 2, gr (k + 2) (- 2) 2, gr (k + 3) (- 2) 2);
            c = (gr (k + 4) 0 5, gr (k + 5) 0 5, gr (k + 6) 0 5, ambientIntensity)
        in Init_pointLights gr ambientIntensity (i + 1) n
             (ls @ [\<lparr>position = vadd offset (vmul (lissajous p 0) scale),
                      color = c, movement = p\<rparr>], k + 7)
      else (ls, k))"
  by pat_completeness auto
termination
  by (relation "measure (\<lambda>(gr, a, i, n, st). nat (n - i))") auto

text \<open>The loop of lines 165-186.\<close>

function Init_spotLights ::
  "rng \<Rightarrow> ieee_float \<Rightarrow> int \<Rightarrow> int \<Rightarrow> SpotLight list \<times> nat \<Rightarrow> SpotLight list \<times> nat" where
  "Init_spotLights gr ambientIntensity i n (ls, k) =
     (if i < n
      then
        let p = (gr k (- 2) 2, gr (k + 1) (- 2) 2, gr (k + 2) (- 2) 2, gr (k + 3) (- 2) 2);
            c = (gr (k + 4) 0 5, gr (k + 5) 0 5, gr (k + 6) 0 5, ambientIntensity);
            dir = (gr (k + 7) (- 2) 2, gr (k + 8) (- 2) 2, gr (k + 9) (- 2) 2)
        in Init_spotLights gr ambientIntensity (i + 1) n
             (ls @ [\<lparr>position = vadd offset (vmul (lissajous p 0) scale),
                      color = c, movement = p, direction = dir,
                      cutOff = radians (25 / 2), outerCutOff = radians (35 / 2)\<rparr>], k + 10)
      else (ls, k))"
  by pat_completeness auto
termination
  by (relation "measure (\<lambda>(gr, a, i, n, st). nat (n - i))") auto

text \<open>The fixed first point light of line 142.\<close>

definition hero :: "ieee_float \<Rightarrow> PointLight" where
  "hero ambientIntensity =
     \<lparr>position = (- 3, 3, 0), color = (10, 10, 10, ambientIntensity), movement = (0, 1, 0, 0)\<rparr>"

text \<open>
  \<^verbatim>\<open>Scene::Init\<close> (lines 60-202). The state is the scene and the number of calls of
  \<^verbatim>\<open>getRandom\<close> made so far. The OpenGL calls of \<open>Init\<close> appear through the names
  they return only.
\<close>

definition Init ::
  "init_env \<Rightarrow> rng \<Rightarrow> int \<Rightarrow> int \<Rightarrow> int \<Rightarrow> scene \<times> nat \<Rightarrow> error + scene \<times> nat" where
  "Init env gr numCubes' numPointLights' numSpotLights' sk =
     (case sk of (s, k) \<Rightarrow>
        if vao s \<noteq> 0 then Inr (s, k)
        else if numCubes' < 0 then Inl LengthError
        else
          (case Init_cubes gr 1 numCubes' (cubePositions s @ [(0, 1 / 2, 0)], k) of
             (cps, k1) \<Rightarrow>
               let ambientIntensity = fdiv (1 / 1000) (real_of_int numPointLights') in
               if numPointLights' < 0 then Inl LengthError
               else
                 (case Init_pointLights gr ambientIntensity 1 numPointLights'
                         (pointLights s @ [hero ambientIntensity], k1) of
                    (pls, k2) \<Rightarrow>
                      if numSpotLights' < 0 then Inl LengthError
                      else
                        (case Init_spotLights gr ambientIntensity 0 numSpotLights'
                                (spotLights s, k2) of
                           (sls, k3) \<Rightarrow>
                             Inr (s\<lparr>numCubes := numCubes',
                                     numPointLights := numPointLights',
                                     numSpotLights := numSpotLights',
                                     quad := Some (CreateQuadNormalTangentTex env),
                                     cube := Some (CreateCubeNormalTangentTex env),
                                     cubeAdjacency := Some (CreateCubeAdjacency env),
                                     vao := glGenVertexArrays env,
                                     instancingBuffer := glGenBuffers_instancing env,
                                     transformBlockUBO := glGenBuffers_transform env,
                                     cubePositions := cps,
                                     pointLights := pls,
                                     spotLights := sls,
                                     loadedTextures := createdTextures env\<rparr>, k3)))))"

subsection \<open>Animation\<close>

text \<open>The loop of lines 213-216.\<close>

function Update_pointLights ::
  "real \<Rightarrow> int \<Rightarrow> int \<Rightarrow> PointLight list \<Rightarrow> error + PointLight list" where
  "Update_pointLights t i n ls =
     (if i < n
      then
        if nat i < length ls
        then Update_pointLights t (i + 1) n
               (ls[nat i := (ls ! nat i)
                  \<lparr>position := vadd offset (vmul (lissajous (movement (ls ! nat i)) t) scale)\<rparr>])
        else Inl (OutOfBounds PointLightsVec)
      else Inr ls)"
  by pat_completeness auto
termination
  by (relation "measure (\<lambda>(t, i, n, ls). nat (n - i))") auto

text \<open>The loop of lines 219-225; \<open>origin\<close> is \<^verbatim>\<open>glm::vec3(0.0f)\<close>.\<close>

definition origin :: vec3 where "origin = (0, 0, 0)"

function Update_spotLights ::
  "real \<Rightarrow> int \<Rightarrow> int \<Rightarrow> SpotLight list \<Rightarrow> error + SpotLight list" where
  "Update_spotLights t i n ls =
     (if i < n
      then
        if nat i < length ls
        then
          let l1 = (ls ! nat i)
                \<lparr>position := vadd offset (vmul (lissajous (movement (ls ! nat i)) t) scale)\<rparr>;
              l2 = l1\<lparr>direction := normalize_vec (vsub origin (position l1))\<rparr>
          in Update_spotLights t (i + 1) n (ls[nat i := l2])
        else Inl (OutOfBounds SpotLightsVec)
      else Inr ls)"
  by pat_completeness auto
termination
  by (relation "measure (\<lambda>(t, i, n, ls). nat (n - i))") auto

text \<open>
  \<^verbatim>\<open>Scene::Update\<close> (lines 204-229). The animation timer \<open>t\<close> is a function-local
  static, zero before the first call; it is passed and returned beside the scene. Clock and
  positions are real numbers: the model is of the calls in which no product of the
  trajectory overflows, where \<open>lissajous\<close> is the value of the lambda.
\<close>

definition Update :: "real \<Rightarrow> scene \<times> real \<Rightarrow> error + scene \<times> real" where
  "Update dt st =
     (case st of (s, t) \<Rightarrow>
        (case pointLights s of
           [] \<Rightarrow> Inl (OutOfBounds PointLightsVec)
         | l0 # ls \<Rightarrow>
             (case Update_pointLights t 1 (numPointLights s)
                     (l0\<lparr>position := vadd (- 3, 2, 0) (lissajous (movement l0) t)\<rparr> # ls) of
                Inl e \<Rightarrow> Inl e
              | Inr pls \<Rightarrow>
                  (case Update_spotLights t 0 (numSpotLights s) (spotLights s) of
                     Inl e \<Rightarrow> Inl e
                   | Inr sls \<Rightarrow> Inr (s\<lparr>pointLights := pls, spotLights := sls\<rparr>, t + dt)))))"

text \<open>The main loop calls \<open>Update\<close> once per frame with that frame's \<open>dt\<close>.\<close>

fun Updates :: "real list \<Rightarrow> scene \<times> real \<Rightarrow> error + scene \<times> real" where
  "Updates [] st = Inr st"
| "Updates (dt # dts) st =
     (case Update dt st of Inl e \<Rightarrow> Inl e | Inr st' \<Rightarrow> Updates dts st')"

section \<open>Rendering\<close>

subsection \<open>OpenGL calls as a trace\<close>

text \<open>
  The rendering functions have no result but the OpenGL calls they issue; the model returns
  the calls in the order of issue. Matrices are built by glm, which is not part of the
  sources at hand: a matrix is the glm expression that builds it, or an opaque array of
  numbers where it comes from the camera.
\<close>

datatype mat =
    Matrix "real list"
  | Translate vec3
  | Rotate real vec3
  | Scale vec3
  | Mul mat mat
  | Transpose mat
  | LookAt vec3 vec3 vec3
  | Perspective real real real real
  | Mat3x4 mat
  | Mat4x3 mat

record camera =
  GetWorldToView :: mat
  GetProjection :: mat
  GetViewToWorld :: mat

record RenderMode =
  vsync :: bool
  wireframe :: bool
  tonemapping :: bool
  msaaLevel :: int

record InstanceData =
  transformation :: mat

definition MAX_INSTANCES :: nat where "MAX_INSTANCES = 1024"

text \<open>\<^verbatim>\<open>sizeof(InstanceData)\<close>: a \<^verbatim>\<open>glm::mat3x4\<close> of twelve floats.\<close>

definition sizeof_InstanceData :: nat where "sizeof_InstanceData = 48"
definition sizeof_mat3x4 :: nat where "sizeof_mat3x4 = 48"
definition sizeof_mat4x4 :: nat where "sizeof_mat4x4 = 64"

datatype buffer_target = GL_UNIFORM_BUFFER
datatype cap =
  GL_MULTISAMPLE | GL_CULL_FACE | GL_DEPTH_TEST | GL_DEPTH_CLAMP | GL_STENCIL_TEST | GL_BLEND
datatype face = GL_BACK | GL_FRONT | GL_FRONT_AND_BACK
datatype polygon_mode = GL_LINE | GL_FILL
datatype compare = GL_LEQUAL | GL_ALWAYS | GL_EQUAL
datatype stencil_op = GL_KEEP | GL_INCR_WRAP | GL_DECR_WRAP
datatype prim = GL_TRIANGLES | GL_TRIANGLES_ADJACENCY | GL_POINTS
datatype clear_bit = GL_COLOR_BUFFER_BIT | GL_DEPTH_BUFFER_BIT | GL_STENCIL_BUFFER_BIT
datatype blend_equation = GL_FUNC_ADD
datatype blend_factor = GL_ONE

text \<open>
  The calls, with the arguments that vary in the program. \<open>memcpy\<close> is the copy into the
  mapped instance buffer: the entries copied and the number of bytes. \<open>glUniform4fv l m c\<close>
  uploads column \<open>c\<close> of the matrix \<open>m\<close>.
\<close>

datatype gl_call =
    glBindBuffer buffer_target GLuint
  | glBufferSubData buffer_target nat nat mat
  | glBindBufferBase buffer_target nat GLuint
  | glMapBuffer buffer_target
  | memcpy "InstanceData list" "64 word"
  | glUnmapBuffer buffer_target
  | glUseProgram GLuint
  | glUniform4f int ieee_float ieee_float ieee_float ieee_float
  | glUniform4fv int mat nat
  | glUniform3fv int vec3
  | glUniformMatrix4x3fv int mat
  | glActiveTexture nat
  | glBindTexture GLuint
  | glBindSampler nat GLuint
  | glBindVertexArray GLuint
  | glDrawElements prim int
  | glDrawElementsInstanced prim int int
  | glDrawArrays prim int int
  | glEnable cap
  | glDisable cap
  | glCullFace face
  | glPolygonMode face polygon_mode
  | glDepthFunc compare
  | glDepthMask bool
  | glClearColor real real real real
  | glClear "clear_bit list"
  | glColorMask bool bool bool bool
  | glBlendEquation blend_equation
  | glBlendFunc blend_factor blend_factor
  | glStencilFunc compare int int
  | glStencilOp stencil_op stencil_op stencil_op
  | glStencilOpSeparate face stencil_op stencil_op stencil_op
  | glPointSize real

text \<open>
  A rendering function either runs into undefined behaviour (a null mesh pointer, an index
  out of range) or returns its calls. \<open>seq\<close> runs one after the other.
\<close>

type_synonym trace = "error + gl_call list"

fun seq :: "trace \<Rightarrow> trace \<Rightarrow> trace" where
  "seq (Inl e) r = Inl e"
| "seq (Inr a) (Inl e) = Inl e"
| "seq (Inr a) (Inr b) = Inr (a @ b)"

text \<open>
  The shader programs that the scene uses, the global array \<^verbatim>\<open>shaderProgram\<close> of their
  names, the uniform locations that OpenGL reports, and the anisotropic sampler: all given
  from outside.
\<close>

datatype ShaderProgram =
    Default | Instancing | PointRendering | DefaultDepthPass | InstancingDepthPass
  | InstancedShadowVolume | LightSourceDepthPass

record draw_env =
  shaderProgram :: "ShaderProgram \<Rightarrow> GLuint"
  glGetUniformLocation :: "GLuint \<Rightarrow> string \<Rightarrow> int"
  GetSampler_Anisotropic :: GLuint

text \<open>\<^verbatim>\<open>enum class RenderPass : int\<close> with its values.\<close>

datatype RenderPass =
  DepthPass | ShadowVolume | DirectLight | AmbientLight | ShadowMap | LightPass | ShadowPass

fun RenderPass_int :: "RenderPass \<Rightarrow> int" where
  "RenderPass_int DepthPass = 1"
| "RenderPass_int ShadowVolume = 2"
| "RenderPass_int DirectLight = 4"
| "RenderPass_int AmbientLight = 8"
| "RenderPass_int ShadowMap = 16"
| "RenderPass_int LightPass = 12"
| "RenderPass_int ShadowPass = 18"

subsection \<open>Per-frame uploads\<close>

text \<open>The loop of lines 260-267.\<close>

function UpdateInstanceData_loop ::
  "scene \<Rightarrow> int \<Rightarrow> InstanceData list \<Rightarrow> error + InstanceData list" where
  "UpdateInstanceData_loop s i instanceData =
     (if i < numCubes s
      then
        if i < 0 \<or> length (cubePositions s) \<le> nat i then Inl (OutOfBounds CubePositionsVec)
        else if length instanceData \<le> nat i then Inl (OutOfBounds InstanceDataVec)
        else UpdateInstanceData_loop s (i + 1)
               (instanceData[nat i :=
                  \<lparr>transformation =
                     Mat3x4 (Transpose (Mul (Translate (cubePositions s ! nat i))
                       (Rotate (radians (real_of_int i * 20)) (1, 1, 1))))\<rparr>])
      else Inr instanceData)"
  by pat_completeness auto
termination
  by (relation "measure (\<lambda>(s, i, d). nat (numCubes s - i))") auto

text \<open>
  \<^verbatim>\<open>Scene::UpdateInstanceData\<close> (lines 251-279). The CPU-side array is a function-local
  static vector of \<open>MAX_INSTANCES\<close> entries; it is passed and returned. The byte count of
  the copy is \<^verbatim>\<open>_numCubes * sizeof(InstanceData)\<close> in \<^verbatim>\<open>size_t\<close>, 64 bits wide; a copy that
  reads beyond the array is out of bounds.
\<close>

definition UpdateInstanceData ::
  "scene \<Rightarrow> InstanceData list \<Rightarrow> error + InstanceData list \<times> gl_call list" where
  "UpdateInstanceData s instanceData =
     (case UpdateInstanceData_loop s 0 instanceData of
        Inl e \<Rightarrow> Inl e
      | Inr d \<Rightarrow>
          let n = (word_of_int (numCubes s) * word_of_nat sizeof_InstanceData :: 64 word) in
          if length d * sizeof_InstanceData < unat n then Inl (OutOfBounds InstanceDataVec)
          else Inr (d,
            [glBindBufferBase GL_UNIFORM_BUFFER 1 (instancingBuffer s),
             glMapBuffer GL_UNIFORM_BUFFER,
             memcpy (take (unat n div sizeof_InstanceData) d) n,
             glUnmapBuffer GL_UNIFORM_BUFFER,
             glBindBufferBase GL_UNIFORM_BUFFER 1 0]))"

text \<open>\<^verbatim>\<open>Scene::UpdateTransformBlock\<close> (lines 328-348).\<close>

definition UpdateTransformBlock :: "scene \<Rightarrow> camera \<Rightarrow> gl_call list" where
  "UpdateTransformBlock s cam =
     [glBindBuffer GL_UNIFORM_BUFFER (transformBlockUBO s),
      glBufferSubData GL_UNIFORM_BUFFER 0 sizeof_mat3x4 (Mat3x4 (Transpose (GetWorldToView cam))),
      glBufferSubData GL_UNIFORM_BUFFER sizeof_mat3x4 sizeof_mat4x4 (GetProjection cam),
      glBindBuffer GL_UNIFORM_BUFFER 0]"

text \<open>
  \<^verbatim>\<open>Scene::UpdateTransformBlockSingleSpotLight\<close> (lines 305-326). The parameter is a
  \<^verbatim>\<open>const float&\<close> used as the index into \<^verbatim>\<open>_spotLights\<close>: the conversion to the index
  type truncates, and is undefined for a negative value.
\<close>

definition UpdateTransformBlockSingleSpotLight :: "scene \<Rightarrow> real \<Rightarrow> trace" where
  "UpdateTransformBlockSingleSpotLight s light =
     (if light < 0 \<or> length (spotLights s) \<le> nat \<lfloor>light\<rfloor>
      then Inl (OutOfBounds SpotLightsVec)
      else
        let l = spotLights s ! nat \<lfloor>light\<rfloor>;
            lightViewMatrix = LookAt (position l) (vadd (position l) (direction l)) (0, 1, 0);
            worldToView = Mat3x4 (Transpose lightViewMatrix);
            near_plane = 1 / 10;
            far_plane = 10001 / 10;
            SHADOW_WIDTH = 1024;
            SHADOW_HEIGHT = 1024;
            lightProjectionMatrix =
              Perspective (radians 45) (SHADOW_WIDTH / SHADOW_HEIGHT) near_plane far_plane
        in Inr
          [glBindBuffer GL_UNIFORM_BUFFER (transformBlockUBO s),
           glBufferSubData GL_UNIFORM_BUFFER 0 sizeof_mat3x4 worldToView,
           glBufferSubData GL_UNIFORM_BUFFER sizeof_mat3x4 sizeof_mat4x4 lightProjectionMatrix,
           glBindBuffer GL_UNIFORM_BUFFER 0])"

subsection \<open>Drawing\<close>

text \<open>
  \<^verbatim>\<open>Scene::UpdateProgramData\<close> (lines 281-303). The light direction and the two cut-off
  angles are parameters that the function never reads; they are left out, here and in the
  functions that only pass them on. \<^verbatim>\<open>glGetUniformLocation\<close> is a query: it appears
  through the location it returns.
\<close>

definition UpdateProgramData ::
  "draw_env \<Rightarrow> GLuint \<Rightarrow> RenderPass \<Rightarrow> camera \<Rightarrow> vec3 \<Rightarrow> color4 \<Rightarrow> gl_call list" where
  "UpdateProgramData env program renderPass cam lightPosition lightColor =
     (case (lightPosition, lightColor) of ((px, py, pz), (cr, cg, cb, ca)) \<Rightarrow>
        (if RenderPass_int renderPass AND (RenderPass_int ShadowPass OR RenderPass_int LightPass) \<noteq> 0
         then [glUniform4f (glGetUniformLocation env program ''lightPosWS'')
                 (Fin px) (Fin py) (Fin pz)
                 (if RenderPass_int renderPass AND RenderPass_int DirectLight \<noteq> 0
                  then Fin 1 else Fin 0)]
         else []) @
        (if RenderPass_int renderPass AND RenderPass_int LightPass \<noteq> 0
         then [glUniform4fv (glGetUniformLocation env program ''viewPosWS'') (GetViewToWorld cam) 3,
               glUniform4f (glGetUniformLocation env program ''lightColor'')
                 (Fin cr) (Fin cg) (Fin cb)
                 (if RenderPass_int renderPass AND RenderPass_int AmbientLight \<noteq> 0
                  then ca else Fin 0)]
         else []))"

text \<open>\<^verbatim>\<open>Scene::BindTextures\<close> (lines 231-249).\<close>

definition BindTextures :: "draw_env \<Rightarrow> GLuint \<Rightarrow> GLuint \<Rightarrow> GLuint \<Rightarrow> GLuint \<Rightarrow> gl_call list" where
  "BindTextures env diffuse normal specular occlusion =
     [glActiveTexture 0, glBindTexture diffuse, glBindSampler 0 (GetSampler_Anisotropic env),
      glActiveTexture 1, glBindTexture normal, glBindSampler 1 (GetSampler_Anisotropic env),
      glActiveTexture 2, glBindTexture specular, glBindSampler 2 (GetSampler_Anisotropic env),
      glActiveTexture 3, glBindTexture occlusion, glBindSampler 3 (GetSampler_Anisotropic env)]"

text \<open>\<^verbatim>\<open>Scene::DrawBackground\<close> (lines 350-387); \<^verbatim>\<open>PI_HALF\<close> is \<open>pi / 2\<close>.\<close>

definition DrawBackground ::
  "draw_env \<Rightarrow> scene \<Rightarrow> GLuint \<Rightarrow> RenderPass \<Rightarrow> camera \<Rightarrow> vec3 \<Rightarrow> color4 \<Rightarrow> trace" where
  "DrawBackground env s program renderPass cam lightPosition lightColor =
     (case quad s of
        None \<Rightarrow> Inl NullPointer
      | Some q \<Rightarrow> Inr (
          [glUseProgram program] @
          UpdateProgramData env program renderPass cam lightPosition lightColor @
          (if RenderPass_int renderPass AND RenderPass_int LightPass \<noteq> 0
           then BindTextures env (loadedTextures s CheckerBoard) (loadedTextures s Blue)
                  (loadedTextures s Grey) (loadedTextures s White)
           else []) @
          [glBindVertexArray (GetVAO q),
           glUniformMatrix4x3fv 0 (Mat4x3 (Scale (30, 1, 30))),
           glDrawElements GL_TRIANGLES (GetIBOSize q),
           glUniformMatrix4x3fv 0
             (Mat4x3 (Mul (Mul (Translate (0, 0, 15)) (Rotate (- (pi / 2)) (1, 0, 0)))
                (Scale (30, 1, 30)))),
           glDrawElements GL_TRIANGLES (GetIBOSize q),
           glUniformMatrix4x3fv 0
             (Mat4x3 (Mul (Mul (Translate (15, 0, 0)) (Rotate (pi / 2) (0, 0, 1)))
                (Scale (30, 1, 30)))),
           glDrawElements GL_TRIANGLES (GetIBOSize q)]))"

text \<open>
  \<^verbatim>\<open>Scene::DrawObjects\<close> (lines 389-446). \<^verbatim>\<open>lightColor * 0.05f\<close> scales all four
  components; \<^verbatim>\<open>glUniform3fv\<close> uploads the first three.
\<close>

definition DrawObjects ::
  "draw_env \<Rightarrow> scene \<Rightarrow> GLuint \<Rightarrow> RenderPass \<Rightarrow> camera \<Rightarrow> vec3 \<Rightarrow> color4 \<Rightarrow> trace" where
  "DrawObjects env s program renderPass cam lightPosition lightColor =
     seq (Inr (
          [glUseProgram program] @
          UpdateProgramData env program renderPass cam lightPosition lightColor @
          [glBindBufferBase GL_UNIFORM_BUFFER 1 (instancingBuffer s)] @
          (if RenderPass_int renderPass AND RenderPass_int LightPass \<noteq> 0
           then BindTextures env (loadedTextures s Diffuse) (loadedTextures s Normal)
                  (loadedTextures s Specular) (loadedTextures s Occlusion)
           else [])))
    (seq (if RenderPass_int renderPass AND RenderPass_int ShadowVolume \<noteq> 0
          then (case cubeAdjacency s of
                  None \<Rightarrow> Inl NullPointer
                | Some m \<Rightarrow> Inr
                    [glBindVertexArray (GetVAO m),
                     glDrawElementsInstanced GL_TRIANGLES_ADJACENCY (GetIBOSize m) (numCubes s)])
          else (case cube s of
                  None \<Rightarrow> Inl NullPointer
                | Some m \<Rightarrow> Inr
                    [glBindVertexArray (GetVAO m),
                     glDrawElementsInstanced GL_TRIANGLES (GetIBOSize m) (numCubes s)]))
         (Inr (
          [glBindBufferBase GL_UNIFORM_BUFFER 1 0] @
          (if RenderPass_int renderPass AND RenderPass_int AmbientLight \<noteq> 0
           then
             (case lightColor of (cr, cg, cb, ca) \<Rightarrow>
               [glUseProgram (shaderProgram env PointRendering),
                glUniform3fv
                  (glGetUniformLocation env (shaderProgram env PointRendering) ''position'')
                  lightPosition,
                glUniform3fv
                  (glGetUniformLocation env (shaderProgram env PointRendering) ''color'')
                  (cr * (5 / 100), cg * (5 / 100), cb * (5 / 100)),
                glDisable GL_BLEND,
                glPointSize 10,
                glBindVertexArray (vao s),
                glDrawArrays GL_POINTS 0 1])
           else []))))"

text \<open>The lambdas of \<^verbatim>\<open>Scene::Draw\<close>: \<open>depthPass\<close> (lines 504-511).\<close>

definition depthPass :: "draw_env \<Rightarrow> scene \<Rightarrow> camera \<Rightarrow> trace" where
  "depthPass env s cam =
     seq (DrawBackground env s (shaderProgram env DefaultDepthPass) DepthPass cam
            (0, 0, 0) (0, 0, 0, Fin 0))
         (DrawObjects env s (shaderProgram env InstancingDepthPass) DepthPass cam
            (0, 0, 0) (0, 0, 0, Fin 0))"

text \<open>\<open>lightPass\<close> (lines 541-561).\<close>

definition lightPass ::
  "draw_env \<Rightarrow> scene \<Rightarrow> camera \<Rightarrow> RenderPass \<Rightarrow> vec3 \<Rightarrow> color4 \<Rightarrow> trace" where
  "lightPass env s cam renderPass lightPosition lightColor =
     seq (Inr [glEnable GL_BLEND, glBlendEquation GL_FUNC_ADD, glBlendFunc GL_ONE GL_ONE,
               glStencilFunc GL_EQUAL 0 255,
               glStencilOp GL_KEEP GL_KEEP GL_KEEP])
    (seq (DrawBackground env s (shaderProgram env Default) renderPass cam
            lightPosition lightColor)
    (seq (DrawObjects env s (shaderProgram env Instancing) renderPass cam
            lightPosition lightColor)
         (Inr [glDisable GL_BLEND])))"

text \<open>\<open>shadowVolumePass\<close> (lines 566-594).\<close>

definition shadowVolumePass ::
  "draw_env \<Rightarrow> scene \<Rightarrow> camera \<Rightarrow> bool \<Rightarrow> vec3 \<Rightarrow> color4 \<Rightarrow> trace" where
  "shadowVolumePass env s cam carmackReverse lightPosition lightColor =
     seq (Inr ([glDisable GL_CULL_FACE,
                glStencilFunc GL_ALWAYS 0 255] @
               (if carmackReverse
                then [glStencilOpSeparate GL_BACK GL_KEEP GL_INCR_WRAP GL_KEEP,
                      glStencilOpSeparate GL_FRONT GL_KEEP GL_DECR_WRAP GL_KEEP]
                else [glStencilOpSeparate GL_BACK GL_KEEP GL_KEEP GL_DECR_WRAP,
                      glStencilOpSeparate GL_FRONT GL_KEEP GL_KEEP GL_INCR_WRAP])))
    (seq (DrawObjects env s (shaderProgram env InstancedShadowVolume) ShadowVolume cam
            lightPosition lightColor)
         (Inr [glEnable GL_CULL_FACE]))"

text \<open>The loop over the point lights (lines 633-650), from index \<open>i\<close> on.\<close>

function Draw_pointLights ::
  "draw_env \<Rightarrow> scene \<Rightarrow> camera \<Rightarrow> bool \<Rightarrow> int \<Rightarrow> trace" where
  "Draw_pointLights env s cam carmackReverse i =
     (if i < numPointLights s
      then
        if i < 0 \<or> length (pointLights s) \<le> nat i then Inl (OutOfBounds PointLightsVec)
        else
          seq (Inr [glClear [GL_STENCIL_BUFFER_BIT], glEnable GL_STENCIL_TEST,
                    glColorMask False False False False])
         (seq (shadowVolumePass env s cam carmackReverse
                 (position (pointLights s ! nat i)) (color (pointLights s ! nat i)))
         (seq (Inr [glColorMask True True True True])
         (seq (lightPass env s cam DirectLight
                 (position (pointLights s ! nat i)) (color (pointLights s ! nat i)))
         (seq (Inr [glDisable GL_STENCIL_TEST])
         (seq (lightPass env s cam AmbientLight
                 (position (pointLights s ! nat i)) (color (pointLights s ! nat i)))
              (Draw_pointLights env s cam carmackReverse (i + 1)))))))
      else Inr [])"
  by pat_completeness auto
termination
  by (relation "measure (\<lambda>(env, s, cam, cr, i). nat (numPointLights s - i))") auto

text \<open>The loop over the spot lights (lines 657-674), from index \<open>i\<close> on.\<close>

function Draw_spotLights :: "draw_env \<Rightarrow> scene \<Rightarrow> camera \<Rightarrow> int \<Rightarrow> trace" where
  "Draw_spotLights env s cam i =
     (if i < numSpotLights s
      then
        if i < 0 \<or> length (spotLights s) \<le> nat i then Inl (OutOfBounds SpotLightsVec)
        else
          seq (Inr [glClear [GL_STENCIL_BUFFER_BIT], glDisable GL_STENCIL_TEST,
                    glDisable GL_STENCIL_TEST])
         (seq (lightPass env s cam AmbientLight
                 (position (spotLights s ! nat i)) (color (spotLights s ! nat i)))
              (Draw_spotLights env s cam (i + 1)))
      else Inr [])"
  by pat_completeness auto
termination
  by (relation "measure (\<lambda>(env, s, cam, i). nat (numSpotLights s - i))") auto

text \<open>The state set-up between the uploads and the depth pass (lines 601-622).\<close>

definition frame_setup :: "RenderMode \<Rightarrow> gl_call list" where
  "frame_setup renderMode =
     [if 1 < msaaLevel renderMode then glEnable GL_MULTISAMPLE else glDisable GL_MULTISAMPLE,
      glEnable GL_CULL_FACE,
      glCullFace GL_BACK,
      glPolygonMode GL_FRONT_AND_BACK (if wireframe renderMode then GL_LINE else GL_FILL),
      glEnable GL_DEPTH_TEST,
      glEnable GL_DEPTH_CLAMP,
      glDepthFunc GL_LEQUAL,
      glDepthMask True,
      glClearColor 0 0 0 1,
      glClear [GL_COLOR_BUFFER_BIT, GL_DEPTH_BUFFER_BIT]]"

text \<open>
  \<^verbatim>\<open>Scene::Draw\<close> (lines 497-678): the calls of one frame, and the CPU-side instance
  array as \<open>UpdateInstanceData\<close> leaves it.
\<close>

definition Draw ::
  "draw_env \<Rightarrow> scene \<Rightarrow> InstanceData list \<Rightarrow> camera \<Rightarrow> RenderMode \<Rightarrow> bool \<Rightarrow>
   error + InstanceData list \<times> gl_call list" where
  "Draw env s instanceData cam renderMode carmackReverse =
     (case UpdateInstanceData s instanceData of
        Inl e \<Rightarrow> Inl e
      | Inr (instanceData', upload) \<Rightarrow>
          (case
             seq (Inr (UpdateTransformBlock s cam @ upload @ frame_setup renderMode @
                       [glColorMask False False False False]))
            (seq (depthPass env s cam)
            (seq (Inr [glDepthMask False])
            (seq (Draw_pointLights env s cam carmackReverse 0)
            (seq (Draw_spotLights env s cam 0)
                 (Inr [glColorMask True True True True])))))
           of Inl e \<Rightarrow> Inl e
            | Inr calls \<Rightarrow> Inr (instanceData', calls)))"

subsection \<open>The pipeline state that the calls set\<close>

text \<open>
  The part of the OpenGL state that the passes depend on, and how each call changes it,
  as the OpenGL specification has it: \<^verbatim>\<open>glStencilOp\<close> sets the operations of both faces,
  \<^verbatim>\<open>glStencilOpSeparate\<close> those of the face named.
\<close>

record gl_state =
  color_mask :: "bool \<times> bool \<times> bool \<times> bool"
  depth_test :: bool
  depth_func :: compare
  depth_mask :: bool
  stencil_test :: bool
  stencil_func :: "compare \<times> int \<times> int"
  stencil_op_front :: "stencil_op \<times> stencil_op \<times> stencil_op"
  stencil_op_back :: "stencil_op \<times> stencil_op \<times> stencil_op"
  cull_face :: bool
  blend :: bool

fun set_cap :: "cap \<Rightarrow> bool \<Rightarrow> gl_state \<Rightarrow> gl_state" where
  "set_cap GL_CULL_FACE b st = st\<lparr>cull_face := b\<rparr>"
| "set_cap GL_DEPTH_TEST b st = st\<lparr>depth_test := b\<rparr>"
| "set_cap GL_STENCIL_TEST b st = st\<lparr>stencil_test := b\<rparr>"
| "set_cap GL_BLEND b st = st\<lparr>blend := b\<rparr>"
| "set_cap GL_MULTISAMPLE b st = st"
| "set_cap GL_DEPTH_CLAMP b st = st"

fun gl_step :: "gl_state \<Rightarrow> gl_call \<Rightarrow> gl_state" where
  "gl_step st (glEnable c) = set_cap c True st"
| "gl_step st (glDisable c) = set_cap c False st"
| "gl_step st (glColorMask r g b a) = st\<lparr>color_mask := (r, g, b, a)\<rparr>"
| "gl_step st (glDepthFunc f) = st\<lparr>depth_func := f\<rparr>"
| "gl_step st (glDepthMask b) = st\<lparr>depth_mask := b\<rparr>"
| "gl_step st (glStencilFunc f r m) = st\<lparr>stencil_func := (f, r, m)\<rparr>"
| "gl_step st (glStencilOp sf df dp) =
     st\<lparr>stencil_op_front := (sf, df, dp), stencil_op_back := (sf, df, dp)\<rparr>"
| "gl_step st (glStencilOpSeparate GL_FRONT sf df dp) = st\<lparr>stencil_op_front := (sf, df, dp)\<rparr>"
| "gl_step st (glStencilOpSeparate GL_BACK sf df dp) = st\<lparr>stencil_op_back := (sf, df, dp)\<rparr>"
| "gl_step st (glStencilOpSeparate GL_FRONT_AND_BACK sf df dp) =
     st\<lparr>stencil_op_front := (sf, df, dp), stencil_op_back := (sf, df, dp)\<rparr>"
| "gl_step st c = st"

definition gl_run :: "gl_state \<Rightarrow> gl_call list \<Rightarrow> gl_state" where
  "gl_run st calls = foldl gl_step st calls"

fun is_draw :: "gl_call \<Rightarrow> bool" where
  "is_draw (glDrawElements m n) = True"
| "is_draw (glDrawElementsInstanced m n k) = True"
| "is_draw (glDrawArrays m a n) = True"
| "is_draw c = False"

text \<open>The pipeline state in which each draw call of a trace is issued.\<close>

fun draw_states :: "gl_state \<Rightarrow> gl_call list \<Rightarrow> gl_state list" where
  "draw_states st [] = []"
| "draw_states st (c # cs) = (if is_draw c then [st] else []) @ draw_states (gl_step st c) cs"

text \<open>The pipeline state after each call of a trace.\<close>

fun gl_states :: "gl_state \<Rightarrow> gl_call list \<Rightarrow> gl_state list" where
  "gl_states st [] = []"
| "gl_states st (c # cs) = gl_step st c # gl_states (gl_step st c) cs"

subsection \<open>Closed forms used in the statements\<close>

text \<open>One step of the light loops of \<open>Update\<close>, as a function of the light.\<close>

definition move_point :: "real \<Rightarrow> PointLight \<Rightarrow> PointLight" where
  "move_point t l = l\<lparr>position := vadd offset (vmul (lissajous (movement l) t) scale)\<rparr>"

definition move_hero :: "real \<Rightarrow> PointLight \<Rightarrow> PointLight" where
  "move_hero t l = l\<lparr>position := vadd (- 3, 2, 0) (lissajous (movement l) t)\<rparr>"

definition move_spot :: "real \<Rightarrow> SpotLight \<Rightarrow> SpotLight" where
  "move_spot t l =
     l\<lparr>position := vadd offset (vmul (lissajous (movement l) t) scale),
       direction :=
         normalize_vec (vsub origin (vadd offset (vmul (lissajous (movement l) t) scale)))\<rparr>"

text \<open>
  The scene with every light put on its trajectory at the clock value \<open>t\<close>: the light
  at index 0 by the special case of line 210, the point lights at the indices from 1 below
  \<open>numPointLights\<close> and the spot lights below \<open>numSpotLights\<close> by the common formula.
\<close>

fun place_point :: "real \<Rightarrow> int \<Rightarrow> nat \<times> PointLight \<Rightarrow> PointLight" where
  "place_point t n (j, l) =
     (if j = 0 then move_hero t l else if int j < n then move_point t l else l)"

fun place_spot :: "real \<Rightarrow> int \<Rightarrow> nat \<times> SpotLight \<Rightarrow> SpotLight" where
  "place_spot t n (j, l) = (if int j < n then move_spot t l else l)"

definition trajectories :: "real \<Rightarrow> scene \<Rightarrow> scene" where
  "trajectories t s =
     s\<lparr>pointLights := map (place_point t (numPointLights s)) (enumerate 0 (pointLights s)),
       spotLights := map (place_spot t (numSpotLights s)) (enumerate 0 (spotLights s))\<rparr>"

text \<open>
  The light vectors hold the lights that \<open>Update\<close> and \<open>Draw\<close> index: that is what
  \<open>Init\<close> leaves behind, and what keeps every index of the two in range.
\<close>

definition lights_inv :: "scene \<Rightarrow> bool" where
  "lights_inv s \<longleftrightarrow>
     pointLights s \<noteq> [] \<and> nat (numPointLights s) \<le> length (pointLights s) \<and>
     nat (numSpotLights s) \<le> length (spotLights s)"

text \<open>The lights that one round of the loops of \<open>Init\<close> appends, from the \<open>k\<close>-th sample on.\<close>

definition random_cube :: "rng \<Rightarrow> nat \<Rightarrow> vec3" where
  "random_cube gr k = (gr k (- 5) 5, gr (k + 1) 1 5, gr (k + 2) (- 5) 5)"

definition random_pointLight :: "rng \<Rightarrow> ieee_float \<Rightarrow> nat \<Rightarrow> PointLight" where
  "random_pointLight gr a k =
     \<lparr>position = vadd offset (vmul (lissajous
          (gr k (- 2) 2, gr (k + 1) (- 2) 2, gr (k + 2) (- 2) 2, gr (k + 3) (- 2) 2) 0) scale),
      color = (gr (k + 4) 0 5, gr (k + 5) 0 5, gr (k + 6) 0 5, a),
      movement = (gr k (- 2) 2, gr (k + 1) (- 2) 2, gr (k + 2) (- 2) 2, gr (k + 3) (- 2) 2)\<rparr>"

definition random_spotLight :: "rng \<Rightarrow> ieee_float \<Rightarrow> nat \<Rightarrow> SpotLight" where
  "random_spotLight gr a k =
     \<lparr>position = vadd offset (vmul (lissajous
          (gr k (- 2) 2, gr (k + 1) (- 2) 2, gr (k + 2) (- 2) 2, gr (k + 3) (- 2) 2) 0) scale),
      color = (gr (k + 4) 0 5, gr (k + 5) 0 5, gr (k + 6) 0 5, a),
      movement = (gr k (- 2) 2, gr (k + 1) (- 2) 2, gr (k + 2) (- 2) 2, gr (k + 3) (- 2) 2),
      direction = (gr (k + 7) (- 2) 2, gr (k + 8) (- 2) 2, gr (k + 9) (- 2) 2),
      cutOff = radians (25 / 2), outerCutOff = radians (35 / 2)\<rparr>"

text \<open>The entry that the loop of \<open>UpdateInstanceData\<close> writes for the cube of index \<open>j\<close>.\<close>

definition instance_entry :: "scene \<Rightarrow> nat \<Rightarrow> InstanceData" where
  "instance_entry s j =
     \<lparr>transformation =
        Mat3x4 (Transpose (Mul (Translate (cubePositions s ! j))
          (Rotate (radians (real j * 20)) (1, 1, 1))))\<rparr>"

text \<open>
  What \<open>Draw\<close> needs of the scene: the lights and cube positions that it indexes, no
  more cubes than the instance array holds, and the three meshes.
\<close>

definition draw_ready :: "scene \<Rightarrow> bool" where
  "draw_ready s \<longleftrightarrow>
     lights_inv s \<and> 0 \<le> numCubes s \<and> numCubes s \<le> int MAX_INSTANCES \<and>
     nat (numCubes s) \<le> length (cubePositions s) \<and>
     quad s \<noteq> None \<and> cube s \<noteq> None \<and> cubeAdjacency s \<noteq> None"

text \<open>The calls of a pass that returns.\<close>

fun calls :: "trace \<Rightarrow> gl_call list" where
  "calls (Inr cs) = cs"
| "calls (Inl e) = []"

text \<open>
  The three sections of a frame, in the words of the specification: the depth-prime pass
  with the state set-up before it and the closing of depth writes after it; for the point
  light of index \<open>i\<close> the stencil clear, the shadow-volume pass with colour writes off, the
  direct-light pass and the ambient-light pass; for the spot light of index \<open>i\<close> the
  ambient-light pass alone (after a stencil clear, with the stencil test off).
\<close>

definition depth_prime :: "draw_env \<Rightarrow> scene \<Rightarrow> camera \<Rightarrow> RenderMode \<Rightarrow> gl_call list" where
  "depth_prime env s cam renderMode =
     frame_setup renderMode @ [glColorMask False False False False] @
     calls (depthPass env s cam) @ [glDepthMask False]"

definition point_light_passes ::
  "draw_env \<Rightarrow> scene \<Rightarrow> camera \<Rightarrow> bool \<Rightarrow> nat \<Rightarrow> gl_call list" where
  "point_light_passes env s cam carmackReverse i =
     [glClear [GL_STENCIL_BUFFER_BIT], glEnable GL_STENCIL_TEST,
      glColorMask False False False False] @
     calls (shadowVolumePass env s cam carmackReverse
              (position (pointLights s ! i)) (color (pointLights s ! i))) @
     [glColorMask True True True True] @
     calls (lightPass env s cam DirectLight
              (position (pointLights s ! i)) (color (pointLights s ! i))) @
     [glDisable GL_STENCIL_TEST] @
     calls (lightPass env s cam AmbientLight
              (position (pointLights s ! i)) (color (pointLights s ! i)))"

definition spot_light_passes :: "draw_env \<Rightarrow> scene \<Rightarrow> camera \<Rightarrow> nat \<Rightarrow> gl_call list" where
  "spot_light_passes env s cam i =
     [glClear [GL_STENCIL_BUFFER_BIT], glDisable GL_STENCIL_TEST, glDisable GL_STENCIL_TEST] @
     calls (lightPass env s cam AmbientLight
              (position (spotLights s ! i)) (color (spotLights s ! i)))"

text \<open>
  What a draw call sees of the pipeline state: the colour write mask, whether the depth
  test is on, the depth function, and whether depth writes are on.
\<close>

definition pass_view :: "gl_state \<Rightarrow> (bool \<times> bool \<times> bool \<times> bool) \<times> bool \<times> compare \<times> bool" where
  "pass_view g = (color_mask g, depth_test g, depth_func g, depth_mask g)"

subsection \<open>Concrete inputs\<close>

text \<open>
  The scene as the constructor leaves it (the two light counts are not initialised by
  the constructor; they are taken as zero), a random source that returns the upper end of
  the range asked for, and the names the collaborators of \<open>Init\<close> hand out.
\<close>

definition fresh_scene :: scene where
  "fresh_scene =
     \<lparr>loadedTextures = (\<lambda>x. 0), numCubes = 10, cubePositions = [],
      numPointLights = 0, pointLights = [], numSpotLights = 0, spotLights = [],
      vao = 0, quad = None, cube = None, cubeAdjacency = None,
      instancingBuffer = 0, transformBlockUBO = 0\<rparr>"

definition upper_rng :: rng where
  "upper_rng k lo hi = hi"

definition example_env :: init_env where
  "example_env =
     \<lparr>CreateQuadNormalTangentTex = \<lparr>GetVAO = 1, GetIBOSize = 6\<rparr>,
      CreateCubeNormalTangentTex = \<lparr>GetVAO = 2, GetIBOSize = 36\<rparr>,
      CreateCubeAdjacency = \<lparr>GetVAO = 3, GetIBOSize = 72\<rparr>,
      glGenVertexArrays = 4,
      glGenBuffers_instancing = 1,
      glGenBuffers_transform = 2,
      createdTextures = (\<lambda>x. 7)\<rparr>"

text \<open>
  An initialised scene with one cube, two point lights and one spot light, as the main
  program asks for (there with ten cubes).
\<close>

definition example_scene :: scene where
  "example_scene =
     \<lparr>loadedTextures = (\<lambda>x. 7), numCubes = 1, cubePositions = [(0, 1 / 2, 0)],
      numPointLights = 2,
      pointLights =
        [\<lparr>position = (- 3, 3, 0), color = (10, 10, 10, Fin (1 / 2000)),
           movement = (0, 1, 0, 0)\<rparr>,
         \<lparr>position = (0, 5, 0), color = (5, 5, 5, Fin (1 / 2000)),
           movement = (2, 2, 2, 2)\<rparr>],
      numSpotLights = 1,
      spotLights =
        [\<lparr>position = (0, 5, 0), color = (5, 5, 5, Fin (1 / 2000)),
           movement = (2, 2, 2, 2), direction = (2, 2, 2),
           cutOff = radians (25 / 2), outerCutOff = radians (35 / 2)\<rparr>],
      vao = 4,
      quad = Some \<lparr>GetVAO = 1, GetIBOSize = 6\<rparr>,
      cube = Some \<lparr>GetVAO = 2, GetIBOSize = 36\<rparr>,
      cubeAdjacency = Some \<lparr>GetVAO = 3, GetIBOSize = 72\<rparr>,
      instancingBuffer = 1, transformBlockUBO = 2\<rparr>"

text \<open>
  A draw environment, a camera and a render mode, and the pipeline state as a frame leaves
  it, for the concrete instances below.
\<close>

definition example_draw_env :: draw_env where
  "example_draw_env =
     \<lparr>shaderProgram = (\<lambda>p. case p of Default \<Rightarrow> 11 | Instancing \<Rightarrow> 12
          | PointRendering \<Rightarrow> 13 | DefaultDepthPass \<Rightarrow> 14 | InstancingDepthPass \<Rightarrow> 15
          | InstancedShadowVolume \<Rightarrow> 16 | LightSourceDepthPass \<Rightarrow> 17),
      glGetUniformLocation = (\<lambda>p n. 1),
      GetSampler_Anisotropic = 5\<rparr>"

definition example_camera :: camera where
  "example_camera =
     \<lparr>GetWorldToView = Matrix [], GetProjection = Matrix [], GetViewToWorld = Matrix []\<rparr>"

definition example_mode :: RenderMode where
  "example_mode = \<lparr>vsync = True, wireframe = False, tonemapping = True, msaaLevel = 1\<rparr>"

definition frame_end_state :: gl_state where
  "frame_end_state =
     \<lparr>color_mask = (True, True, True, True), depth_test = True, depth_func = GL_LEQUAL,
      depth_mask = False, stencil_test = False, stencil_func = (GL_EQUAL, 0, 255),
      stencil_op_front = (GL_KEEP, GL_KEEP, GL_KEEP),
      stencil_op_back = (GL_KEEP, GL_KEEP, GL_KEEP), cull_face = True, blend = False\<rparr>"

section \<open>Properties\<close>

subsection \<open>The trajectory\<close>

lemma sin_cos_prod_bounds: "- 1 \<le> sin (a::real) * cos b \<and> sin a * cos b \<le> 1"
proof -
  have "\<bar>sin a * cos b\<bar> = \<bar>sin a\<bar> * \<bar>cos b\<bar>" by (simp add: abs_mult)
  also have "\<dots> \<le> 1 * 1"
    by (intro mult_mono) simp_all
  finally show ?thesis by (simp add: abs_le_iff)
qed

lemma FLT_OVERFLOW_gt_1: "1 < FLT_OVERFLOW"
  by (simp add: FLT_OVERFLOW_def)

lemma fmul_no_overflow:
  "\<bar>a * b\<bar> < FLT_OVERFLOW \<Longrightarrow> fmul (Fin a) (Fin b) = Fin (a * b)"
  by (simp add: abs_less_iff)

lemma lissajous_binary32_no_overflow:
  assumes "\<bar>px * t\<bar> < FLT_OVERFLOW" "\<bar>py * t\<bar> < FLT_OVERFLOW"
    "\<bar>pz * t\<bar> < FLT_OVERFLOW" "\<bar>pw * t\<bar> < FLT_OVERFLOW"
  shows "lissajous_binary32 (Fin px, Fin py, Fin pz, Fin pw) (Fin t) =
     (Fin (sin (px * t)), Fin (cos (py * t)), Fin (sin (pz * t) * cos (pw * t)))"
proof -
  have "\<bar>sin (pz * t) * cos (pw * t)\<bar> < FLT_OVERFLOW"
    using sin_cos_prod_bounds [of "pz * t" "pw * t"] FLT_OVERFLOW_gt_1
    by (simp add: abs_less_iff)
  then show ?thesis
    using assms by (simp add: fmul_no_overflow del: fmul.simps)
qed

text \<open>
  Claim C7, as amended. For finite trajectory parameters \<open>p\<close> and a finite time \<open>t\<close> such
  that none of the four products \<open>p.x t\<close>, \<open>p.y t\<close>, \<open>p.z t\<close>, \<open>p.w t\<close> overflows binary32,
  the three components of the result of \<open>lissajous\<close> in the arithmetic of the code are the
  numbers \<open>sin (p.x t)\<close>, \<open>cos (p.y t)\<close> and \<open>sin (p.z t) cos (p.w t)\<close>, and each of them
  lies in the interval from \<open>-1\<close> to \<open>1\<close>.
\<close>

theorem lissajous_components_bounded:
  assumes "\<bar>px * t\<bar> < FLT_OVERFLOW" "\<bar>py * t\<bar> < FLT_OVERFLOW"
    "\<bar>pz * t\<bar> < FLT_OVERFLOW" "\<bar>pw * t\<bar> < FLT_OVERFLOW"
  shows "\<exists>a b c.
     lissajous_binary32 (Fin px, Fin py, Fin pz, Fin pw) (Fin t) = (Fin a, Fin b, Fin c) \<and>
     (a, b, c) = lissajous (px, py, pz, pw) t \<and>
     - 1 \<le> a \<and> a \<le> 1 \<and> - 1 \<le> b \<and> b \<le> 1 \<and> - 1 \<le> c \<and> c \<le> 1 \<and>
     in_unit_range (Fin a) \<and> in_unit_range (Fin b) \<and> in_unit_range (Fin c)"
  unfolding lissajous_binary32_no_overflow [OF assms]
  using sin_cos_prod_bounds [of "pz * t" "pw * t"] by simp

theorem lissajous_components_bounded_witness:
  "\<bar>2 * 3\<bar> < FLT_OVERFLOW \<and>
   (\<exists>a b c.
      lissajous_binary32 (Fin 2, Fin 2, Fin 2, Fin 2) (Fin 3) = (Fin a, Fin b, Fin c) \<and>
      (a, b, c) = lissajous (2, 2, 2, 2) 3 \<and>
      - 1 \<le> a \<and> a \<le> 1 \<and> - 1 \<le> b \<and> b \<le> 1 \<and> - 1 \<le> c \<and> c \<le> 1)"
proof -
  have h: "\<bar>2 * 3\<bar> < FLT_OVERFLOW" by (simp add: FLT_OVERFLOW_def)
  from lissajous_components_bounded [OF h h h h] h show ?thesis by blast
qed

text \<open>
  Claim C7 as stated fails: \<open>2\<close> and \<open>2^127\<close> are finite binary32 values, their product
  \<open>2^128\<close> overflows to \<open>+inf\<close>, and \<^verbatim>\<open>sinf\<close> and \<^verbatim>\<open>cosf\<close> of an infinity are NaN. So for
  \<open>p = (2, 2, 2, 2)\<close> and \<open>t = 2^127\<close> every component of the result is NaN, which is no
  number of the interval from \<open>-1\<close> to \<open>1\<close>.
\<close>

theorem lissajous_overflow_counterexample:
  "lissajous_binary32 (Fin 2, Fin 2, Fin 2, Fin 2) (Fin (2 ^ 127)) = (NaN, NaN, NaN) \<and>
   \<not> in_unit_range NaN"
  by (simp add: FLT_OVERFLOW_def)

subsection \<open>Animation: the loops of Update in closed form\<close>

declare Update_pointLights.simps [simp del] Update_spotLights.simps [simp del]
declare Init_cubes.simps [simp del] Init_pointLights.simps [simp del] Init_spotLights.simps [simp del]

lemma Update_pointLights_closed:
  "0 \<le> i \<Longrightarrow> nat n \<le> length ls \<Longrightarrow>
   Update_pointLights t i n ls =
     Inr (map (\<lambda>(j, l). if i \<le> int j \<and> int j < n then move_point t l else l) (enumerate 0 ls))"
proof (induction t i n ls rule: Update_pointLights.induct)
  case (1 t i n ls)
  show ?case
  proof (cases "i < n")
    case False
    have "map (\<lambda>(j, l). if i \<le> int j \<and> int j < n then move_point t l else l) (enumerate 0 ls) = ls"
      using False by (intro nth_equalityI) (auto simp: nth_enumerate_eq)
    with False show ?thesis by (simp add: Update_pointLights.simps [of t i n ls])
  next
    case True
    with "1.prems" have inb: "nat i < length ls" by linarith
    let ?ls' = "ls[nat i := move_point t (ls ! nat i)]"
    have "Update_pointLights t i n ls = Update_pointLights t (i + 1) n ?ls'"
      using True inb by (simp add: Update_pointLights.simps [of t i n ls] move_point_def)
    also have "\<dots> = Inr (map (\<lambda>(j, l). if i + 1 \<le> int j \<and> int j < n then move_point t l else l) (enumerate 0 ?ls'))"
      using "1.IH" [OF True inb] "1.prems" by (simp add: move_point_def)
    also have "map (\<lambda>(j, l). if i + 1 \<le> int j \<and> int j < n then move_point t l else l) (enumerate 0 ?ls')
        = map (\<lambda>(j, l). if i \<le> int j \<and> int j < n then move_point t l else l) (enumerate 0 ls)"
      using True inb "1.prems"
      by (intro nth_equalityI) (auto simp: nth_enumerate_eq nth_list_update)
    finally show ?thesis .
  qed
qed

lemma Update_spotLights_closed:
  "0 \<le> i \<Longrightarrow> nat n \<le> length ls \<Longrightarrow>
   Update_spotLights t i n ls =
     Inr (map (\<lambda>(j, l). if i \<le> int j \<and> int j < n then move_spot t l else l) (enumerate 0 ls))"
proof (induction t i n ls rule: Update_spotLights.induct)
  case (1 t i n ls)
  show ?case
  proof (cases "i < n")
    case False
    have "map (\<lambda>(j, l). if i \<le> int j \<and> int j < n then move_spot t l else l) (enumerate 0 ls) = ls"
      using False by (intro nth_equalityI) (auto simp: nth_enumerate_eq)
    with False show ?thesis by (simp add: Update_spotLights.simps [of t i n ls])
  next
    case True
    with "1.prems" have inb: "nat i < length ls" by linarith
    let ?ls' = "ls[nat i := move_spot t (ls ! nat i)]"
    have "Update_spotLights t i n ls = Update_spotLights t (i + 1) n ?ls'"
      using True inb by (simp add: Update_spotLights.simps [of t i n ls] move_spot_def Let_def)
    also have "\<dots> = Inr (map (\<lambda>(j, l). if i + 1 \<le> int j \<and> int j < n then move_spot t l else l) (enumerate 0 ?ls'))"
      using "1.IH" [OF True inb refl refl] "1.prems" by (simp add: move_spot_def)
    also have "map (\<lambda>(j, l). if i + 1 \<le> int j \<and> int j < n then move_spot t l else l) (enumerate 0 ?ls')
        = map (\<lambda>(j, l). if i \<le> int j \<and> int j < n then move_spot t l else l) (enumerate 0 ls)"
      using True inb "1.prems"
      by (intro nth_equalityI) (auto simp: nth_enumerate_eq nth_list_update)
    finally show ?thesis .
  qed
qed

lemma Update_closed:
  assumes "lights_inv s"
  shows "Update dt (s, t) = Inr (trajectories t s, t + dt)"
proof -
  obtain l0 ls where pl: "pointLights s = l0 # ls"
    using assms by (cases "pointLights s") (auto simp: lights_inv_def)
  have n: "nat (numPointLights s) \<le> length (move_hero t l0 # ls)"
    and m: "nat (numSpotLights s) \<le> length (spotLights s)"
    using assms pl by (auto simp: lights_inv_def)
  have p: "map (\<lambda>(j, l). if 1 \<le> int j \<and> int j < numPointLights s then move_point t l else l)
             (enumerate 0 (move_hero t l0 # ls))
         = map (place_point t (numPointLights s)) (enumerate 0 (l0 # ls))"
    by (intro nth_equalityI) (auto simp: nth_enumerate_eq nth_Cons split: nat.splits)
  have q: "map (\<lambda>(j, l). if 0 \<le> int j \<and> int j < numSpotLights s then move_spot t l else l)
             (enumerate 0 (spotLights s))
         = map (place_spot t (numSpotLights s)) (enumerate 0 (spotLights s))"
    by (intro nth_equalityI) (auto simp: nth_enumerate_eq)
  have A: "Update_pointLights t 1 (numPointLights s) (move_hero t l0 # ls)
         = Inr (map (place_point t (numPointLights s)) (enumerate 0 (l0 # ls)))"
    using Update_pointLights_closed [OF _ n, of 1 t] unfolding p by simp
  have B: "Update_spotLights t 0 (numSpotLights s) (spotLights s)
         = Inr (map (place_spot t (numSpotLights s)) (enumerate 0 (spotLights s)))"
    using Update_spotLights_closed [OF _ m, of 0 t] unfolding q by simp
  have "Update dt (s, t) =
      (case Update_pointLights t 1 (numPointLights s) (move_hero t l0 # ls) of
         Inl e \<Rightarrow> Inl e
       | Inr pls \<Rightarrow>
          (case Update_spotLights t 0 (numSpotLights s) (spotLights s) of
             Inl e \<Rightarrow> Inl e
           | Inr sls \<Rightarrow> Inr (s\<lparr>pointLights := pls, spotLights := sls\<rparr>, t + dt)))"
    by (simp add: Update_def pl move_hero_def)
  also have "\<dots> = Inr (trajectories t s, t + dt)"
    unfolding A B by (simp add: trajectories_def pl)
  finally show ?thesis .
qed

lemma lights_inv_trajectories: "lights_inv s \<Longrightarrow> lights_inv (trajectories t s)"
  by (cases "pointLights s") (auto simp: lights_inv_def trajectories_def)

lemma movement_place_point [simp]: "movement (place_point t n jl) = movement (snd jl)"
  by (cases jl) (simp add: move_hero_def move_point_def)

lemma movement_place_spot [simp]: "movement (place_spot t n jl) = movement (snd jl)"
  by (cases jl) (simp add: move_spot_def)

lemma trajectories_twice: "trajectories t (trajectories t' s) = trajectories t s"
proof -
  have "map (place_point t n) (enumerate 0 (map (place_point t' n) (enumerate 0 xs)))
      = map (place_point t n) (enumerate 0 xs)" for n xs
    by (intro nth_equalityI) (auto simp: nth_enumerate_eq move_hero_def move_point_def)
  moreover have "map (place_spot t n) (enumerate 0 (map (place_spot t' n) (enumerate 0 xs)))
      = map (place_spot t n) (enumerate 0 xs)" for n xs
    by (intro nth_equalityI) (auto simp: nth_enumerate_eq move_spot_def)
  ultimately show ?thesis by (simp add: trajectories_def)
qed

lemma Updates_closed:
  "lights_inv s \<Longrightarrow>
   Updates (dts @ [dt]) (s, t) = Inr (trajectories (t + sum_list dts) s, t + sum_list dts + dt)"
proof (induction dts arbitrary: s t)
  case Nil
  then show ?case by (simp add: Update_closed)
next
  case (Cons d dts)
  have "Updates ((d # dts) @ [dt]) (s, t) = Updates (dts @ [dt]) (trajectories t s, t + d)"
    using Cons.prems by (simp add: Update_closed)
  also have "\<dots> = Inr (trajectories (t + d + sum_list dts) (trajectories t s), t + d + sum_list dts + dt)"
    using Cons.IH [OF lights_inv_trajectories [OF Cons.prems]] by simp
  finally show ?case by (simp add: trajectories_twice add.assoc)
qed

text \<open>The example scene is what \<open>Init\<close> makes of the fresh scene.\<close>

lemma example_scene_is_Init:
  "Init example_env upper_rng 1 2 1 (fresh_scene, 0) = Inr (example_scene, 17)"
  by (simp add: Init_def fresh_scene_def example_scene_def example_env_def upper_rng_def
      Init_cubes.simps Init_pointLights.simps Init_spotLights.simps hero_def fdiv_def
      offset_def scale_def Let_def)

text \<open>
  Claim C3, as amended. \<open>Update dt\<close>, run at the clock value \<open>t\<close> on a scene whose
  light vectors hold the lights it indexes, returns; it puts every point light of index at
  least 1 and every spot light at \<open>offset + lissajous movement t * scale\<close>, and points every
  spot light at the world origin, \<open>direction = normalize (origin - position)\<close>. The point
  light of index 0 is the special case of the source: it is put at
  \<open>(-3, 2, 0) + lissajous movement t\<close>, with neither the common offset nor the scale.
\<close>

theorem Update_recomputes_lights:
  assumes "lights_inv s"
  shows "\<exists>s'. Update dt (s, t) = Inr (s', t + dt) \<and>
     position (pointLights s' ! 0)
       = vadd (- 3, 2, 0) (lissajous (movement (pointLights s ! 0)) t) \<and>
     (\<forall>i. 1 \<le> i \<and> int i < numPointLights s \<longrightarrow>
        position (pointLights s' ! i)
          = vadd offset (vmul (lissajous (movement (pointLights s ! i)) t) scale)) \<and>
     (\<forall>i. int i < numSpotLights s \<longrightarrow>
        position (spotLights s' ! i)
          = vadd offset (vmul (lissajous (movement (spotLights s ! i)) t) scale) \<and>
        direction (spotLights s' ! i)
          = normalize_vec (vsub origin (position (spotLights s' ! i))))"
proof -
  have len: "0 < length (pointLights s)" "nat (numPointLights s) \<le> length (pointLights s)"
    "nat (numSpotLights s) \<le> length (spotLights s)"
    using assms by (auto simp: lights_inv_def)
  have hero: "position (pointLights (trajectories t s) ! 0)
       = vadd (- 3, 2, 0) (lissajous (movement (pointLights s ! 0)) t)"
    using len(1) by (simp add: trajectories_def nth_enumerate_eq move_hero_def)
  have pts: "position (pointLights (trajectories t s) ! i)
          = vadd offset (vmul (lissajous (movement (pointLights s ! i)) t) scale)"
    if "1 \<le> i" "int i < numPointLights s" for i
  proof -
    from that len(2) have "i < length (pointLights s)" by linarith
    with that show ?thesis
      by (simp add: trajectories_def nth_enumerate_eq move_point_def)
  qed
  have spots: "position (spotLights (trajectories t s) ! i)
          = vadd offset (vmul (lissajous (movement (spotLights s ! i)) t) scale) \<and>
        direction (spotLights (trajectories t s) ! i)
          = normalize_vec (vsub origin (position (spotLights (trajectories t s) ! i)))"
    if "int i < numSpotLights s" for i
  proof -
    from that len(3) have "i < length (spotLights s)" by linarith
    with that show ?thesis
      by (simp add: trajectories_def nth_enumerate_eq move_spot_def)
  qed
  show ?thesis
    using Update_closed [OF assms, of dt t] hero pts spots by blast
qed

theorem Update_recomputes_lights_witness:
  "lights_inv example_scene \<and>
   (\<exists>s'. Update 1 (example_scene, 0) = Inr (s', 1) \<and>
      position (pointLights s' ! 0) = (- 3, 3, 0) \<and>
      position (pointLights s' ! 1) = (0, 5, 0) \<and>
      position (spotLights s' ! 0) = (0, 5, 0) \<and>
      direction (spotLights s' ! 0) = normalize_vec (vsub origin (0, 5, 0)))"
proof -
  have inv: "lights_inv example_scene"
    by (simp add: lights_inv_def example_scene_def)
  from Update_recomputes_lights [OF inv, of 1 0] obtain s' where
    u: "Update 1 (example_scene, 0) = Inr (s', 0 + 1)" and
    h: "position (pointLights s' ! 0)
       = vadd (- 3, 2, 0) (lissajous (movement (pointLights example_scene ! 0)) 0)" and
    p: "\<forall>i. 1 \<le> i \<and> int i < numPointLights example_scene \<longrightarrow>
        position (pointLights s' ! i)
          = vadd offset (vmul (lissajous (movement (pointLights example_scene ! i)) 0) scale)" and
    q: "\<forall>i. int i < numSpotLights example_scene \<longrightarrow>
        position (spotLights s' ! i)
          = vadd offset (vmul (lissajous (movement (spotLights example_scene ! i)) 0) scale) \<and>
        direction (spotLights s' ! i)
          = normalize_vec (vsub origin (position (spotLights s' ! i)))"
    by blast
  from p have p1: "position (pointLights s' ! 1) = (0, 5, 0)"
    by (simp add: example_scene_def offset_def scale_def)
  from q have q0: "position (spotLights s' ! 0) = (0, 5, 0) \<and>
      direction (spotLights s' ! 0) = normalize_vec (vsub origin (0, 5, 0))"
    by (simp add: example_scene_def offset_def scale_def)
  from h have h0: "position (pointLights s' ! 0) = (- 3, 3, 0)"
    by (simp add: example_scene_def)
  from inv u h0 p1 q0 show ?thesis by auto
qed

text \<open>
  Claim C3 as stated fails for the first point light: after \<open>Update\<close> its position is not
  \<open>offset + lissajous movement t * scale\<close>, neither for the clock value before the call
  nor for the one after it.
\<close>

theorem Update_first_light_counterexample:
  "position (pointLights (fst (projr (Update 1 (example_scene, 0)))) ! 0)
     \<noteq> vadd offset (vmul (lissajous (movement (pointLights example_scene ! 0)) 0) scale) \<and>
   position (pointLights (fst (projr (Update 1 (example_scene, 0)))) ! 0)
     \<noteq> vadd offset (vmul (lissajous (movement (pointLights example_scene ! 0)) 1) scale)"
proof -
  have "Update 1 (example_scene, 0) = Inr (trajectories 0 example_scene, 0 + 1)"
    by (rule Update_closed) (simp add: lights_inv_def example_scene_def)
  then show ?thesis
    by (simp add: trajectories_def example_scene_def move_hero_def offset_def scale_def)
qed

text \<open>
  Claim C9. \<open>Update dt\<close> places the lights from the clock value accumulated by the calls
  before it and only then adds \<open>dt\<close> to the clock. So the first call, with the clock at
  zero, places every light at \<open>t = 0\<close> whatever \<open>dt\<close> is, and after the calls for
  \<open>dts @ [dt]\<close> the lights stand where the sum of all deltas but the last puts them,
  while the clock holds the sum of all of them.
\<close>

theorem Update_clock_lags_one_call:
  assumes "lights_inv s"
  shows "Update dt (s, t) = Inr (trajectories t s, t + dt) \<and>
         Update dt (s, 0) = Inr (trajectories 0 s, dt) \<and>
         Updates (dts @ [dt]) (s, 0) = Inr (trajectories (sum_list dts) s, sum_list dts + dt)"
  using Update_closed [OF assms, of dt t] Update_closed [OF assms, of dt 0]
    Updates_closed [OF assms, of dts dt 0] by simp

theorem Update_clock_lags_one_call_witness:
  "lights_inv example_scene \<and>
   Update 5 (example_scene, 0) = Inr (trajectories 0 example_scene, 5) \<and>
   Updates [1, 2, 3] (example_scene, 0) = Inr (trajectories 3 example_scene, 6)"
proof -
  have inv: "lights_inv example_scene"
    by (simp add: lights_inv_def example_scene_def)
  from Update_clock_lags_one_call [OF inv, of 3 0 "[1, 2]"]
       Update_clock_lags_one_call [OF inv, of 5 0 "[]"] inv
  show ?thesis by simp
qed

subsection \<open>Initialisation: the loops of Init in closed form\<close>

lemma upt_0_Suc_map: "map f [0..<Suc m] = f 0 # map (\<lambda>j. f (Suc j)) [0..<m]"
  by (simp only: upt_conv_Cons [of 0 "Suc m"] map_Suc_upt [symmetric] list.map map_map o_def)

lemma Init_cubes_closed:
  "Init_cubes gr i n (ps, k) =
     (ps @ map (\<lambda>j. random_cube gr (k + 3 * j)) [0..<nat (n - i)], k + 3 * nat (n - i))"
proof (induction gr i n "(ps, k)" arbitrary: ps k rule: Init_cubes.induct)
  case (1 gr i n ps k)
  show ?case
  proof (cases "i < n")
    case False
    then show ?thesis by (simp add: Init_cubes.simps [of gr i n ps k])
  next
    case True
    then have m: "nat (n - i) = Suc (nat (n - (i + 1)))" by linarith
    have "Init_cubes gr i n (ps, k) = Init_cubes gr (i + 1) n (ps @ [random_cube gr k], k + 3)"
      using True by (simp add: Init_cubes.simps [of gr i n ps k] random_cube_def)
    also note "1.hyps" [OF True, unfolded random_cube_def [symmetric]]
    finally show ?thesis
      unfolding m upt_0_Suc_map by (simp add: add.assoc add.commute add.left_commute)
  qed
qed

lemma Init_pointLights_closed:
  "Init_pointLights gr a i n (ls, k) =
     (ls @ map (\<lambda>j. random_pointLight gr a (k + 7 * j)) [0..<nat (n - i)], k + 7 * nat (n - i))"
proof (induction gr a i n "(ls, k)" arbitrary: ls k rule: Init_pointLights.induct)
  case (1 gr a i n ls k)
  show ?case
  proof (cases "i < n")
    case False
    then show ?thesis by (simp add: Init_pointLights.simps [of gr a i n ls k])
  next
    case True
    then have m: "nat (n - i) = Suc (nat (n - (i + 1)))" by linarith
    have "Init_pointLights gr a i n (ls, k)
        = Init_pointLights gr a (i + 1) n (ls @ [random_pointLight gr a k], k + 7)"
      using True by (simp add: Init_pointLights.simps [of gr a i n ls k] random_pointLight_def Let_def)
    also note "1.hyps" [OF True refl refl, unfolded Let_def random_pointLight_def [symmetric]]
    finally show ?thesis
      unfolding m upt_0_Suc_map by (simp add: add.assoc add.commute add.left_commute)
  qed
qed

lemma Init_spotLights_closed:
  "Init_spotLights gr a i n (ls, k) =
     (ls @ map (\<lambda>j. random_spotLight gr a (k + 10 * j)) [0..<nat (n - i)], k + 10 * nat (n - i))"
proof (induction gr a i n "(ls, k)" arbitrary: ls k rule: Init_spotLights.induct)
  case (1 gr a i n ls k)
  show ?case
  proof (cases "i < n")
    case False
    then show ?thesis by (simp add: Init_spotLights.simps [of gr a i n ls k])
  next
    case True
    then have m: "nat (n - i) = Suc (nat (n - (i + 1)))" by linarith
    have "Init_spotLights gr a i n (ls, k)
        = Init_spotLights gr a (i + 1) n (ls @ [random_spotLight gr a k], k + 10)"
      using True by (simp add: Init_spotLights.simps [of gr a i n ls k] random_spotLight_def Let_def)
    also note "1.hyps" [OF True refl refl refl, unfolded Let_def random_spotLight_def [symmetric]]
    finally show ?thesis
      unfolding m upt_0_Suc_map by (simp add: add.assoc add.commute add.left_commute)
  qed
qed

lemma Init_closed:
  assumes "vao s = 0" "0 \<le> nc" "0 \<le> np" "0 \<le> ns"
  shows "Init env gr nc np ns (s, k) =
     Inr (s\<lparr>numCubes := nc, numPointLights := np, numSpotLights := ns,
            quad := Some (CreateQuadNormalTangentTex env),
            cube := Some (CreateCubeNormalTangentTex env),
            cubeAdjacency := Some (CreateCubeAdjacency env),
            vao := glGenVertexArrays env,
            instancingBuffer := glGenBuffers_instancing env,
            transformBlockUBO := glGenBuffers_transform env,
            cubePositions := cubePositions s @ (0, 1 / 2, 0) #
              map (\<lambda>j. random_cube gr (k + 3 * j)) [0..<nat (nc - 1)],
            pointLights := pointLights s @ hero (fdiv (1 / 1000) (real_of_int np)) #
              map (\<lambda>j. random_pointLight gr (fdiv (1 / 1000) (real_of_int np))
                     (k + 3 * nat (nc - 1) + 7 * j)) [0..<nat (np - 1)],
            spotLights := spotLights s @
              map (\<lambda>j. random_spotLight gr (fdiv (1 / 1000) (real_of_int np))
                     (k + 3 * nat (nc - 1) + 7 * nat (np - 1) + 10 * j)) [0..<nat ns],
            loadedTextures := createdTextures env\<rparr>,
          k + 3 * nat (nc - 1) + 7 * nat (np - 1) + 10 * nat ns)"
  using assms
  by (simp add: Init_def Init_cubes_closed Init_pointLights_closed Init_spotLights_closed Let_def)

text \<open>
  Claim C5. A call of \<open>Init\<close> on a scene that is already initialised (its \<open>vao\<close> is not
  zero) returns the scene as it is, whatever the arguments, and draws no random number. A scene
  that \<open>Init\<close> has returned is such a scene, provided OpenGL handed out a vertex array name
  other than zero.
\<close>

theorem Init_reentry_no_effect:
  "(vao s \<noteq> 0 \<longrightarrow> Init env gr nc np ns (s, k) = Inr (s, k)) \<and>
   (Init env gr nc np ns (s0, k0) = Inr (s, k) \<and> glGenVertexArrays env \<noteq> 0 \<longrightarrow>
      Init env' gr' nc' np' ns' (s, k) = Inr (s, k))"
proof -
  have a: "Init env gr nc np ns (s, k) = Inr (s, k)" if "vao s \<noteq> 0" for env gr nc np ns s k
    using that by (simp add: Init_def)
  have "vao s \<noteq> 0" if "Init env gr nc np ns (s0, k0) = Inr (s, k)" "glGenVertexArrays env \<noteq> 0"
  proof (cases "vao s0 = 0")
    case False
    with that a [of s0] show ?thesis by auto
  next
    case True
    with that show ?thesis
      by (auto simp: Init_def Let_def split: if_splits prod.splits)
  qed
  with a show ?thesis by blast
qed

theorem Init_reentry_no_effect_witness:
  "vao example_scene \<noteq> 0 \<and>
   Init example_env upper_rng 10 5 3 (example_scene, 17) = Inr (example_scene, 17) \<and>
   Init example_env upper_rng 1 2 1 (fresh_scene, 0) = Inr (example_scene, 17) \<and>
   glGenVertexArrays example_env \<noteq> 0"
proof -
  have v: "vao example_scene \<noteq> 0" by (simp add: example_scene_def)
  have g: "glGenVertexArrays example_env \<noteq> 0" by (simp add: example_env_def)
  from Init_reentry_no_effect [of example_scene example_env upper_rng 10 5 3 17] v g
    example_scene_is_Init
  show ?thesis by simp
qed

text \<open>
  Claim C8. On a scene that is not yet initialised, and with counts that are not negative,
  \<open>Init\<close> returns and appends to the point lights the fixed light at \<open>(-3, 3, 0)\<close>
  first and then \<open>numPointLights - 1\<close> random ones: also for \<open>numPointLights = 0\<close>, so
  the vector is never empty afterwards. The ambient intensity is the quotient
  \<open>1e-3 / numPointLights\<close>, taken with no guard, a division by zero (giving \<open>+inf\<close>) for
  \<open>numPointLights = 0\<close>; it is the fourth colour component of every light appended, the spot
  lights included.
\<close>

theorem Init_hero_light_and_ambient:
  assumes "vao s = 0" "0 \<le> nc" "0 \<le> np" "0 \<le> ns"
  shows "\<exists>s' k' rest spots.
     Init env gr nc np ns (s, k) = Inr (s', k') \<and>
     pointLights s' = pointLights s @ hero (fdiv (1 / 1000) (real_of_int np)) # rest \<and>
     pointLights s' \<noteq> [] \<and>
     position (hero (fdiv (1 / 1000) (real_of_int np))) = (- 3, 3, 0) \<and>
     cw (color (hero (fdiv (1 / 1000) (real_of_int np)))) = fdiv (1 / 1000) (real_of_int np) \<and>
     length rest = nat (np - 1) \<and>
     (\<forall>l \<in> set rest. cw (color l) = fdiv (1 / 1000) (real_of_int np)) \<and>
     spotLights s' = spotLights s @ spots \<and>
     length spots = nat ns \<and>
     (\<forall>l \<in> set spots. cw (color l) = fdiv (1 / 1000) (real_of_int np)) \<and>
     (np = 0 \<longrightarrow> rest = [] \<and> fdiv (1 / 1000) (real_of_int np) = PInf)"
  unfolding Init_closed [OF assms]
  by (intro exI conjI) (auto simp: hero_def random_pointLight_def random_spotLight_def fdiv_def)

theorem Init_hero_light_and_ambient_witness:
  "vao fresh_scene = 0 \<and>
   (\<exists>s' k'. Init example_env upper_rng 1 0 1 (fresh_scene, 0) = Inr (s', k') \<and>
      pointLights s' = [hero PInf] \<and> map (\<lambda>l. cw (color l)) (spotLights s') = [PInf])"
proof -
  have v: "vao fresh_scene = 0" by (simp add: fresh_scene_def)
  from Init_hero_light_and_ambient [OF v, of 1 0 1 example_env upper_rng 0]
  obtain s' k' rest spots where
    i: "Init example_env upper_rng 1 0 1 (fresh_scene, 0) = Inr (s', k')" and
    p: "pointLights s' = pointLights fresh_scene @ hero (fdiv (1 / 1000) (real_of_int 0)) # rest" and
    s: "spotLights s' = spotLights fresh_scene @ spots" "length spots = nat 1"
       "\<forall>l \<in> set spots. cw (color l) = fdiv (1 / 1000) (real_of_int 0)" and
    z: "(0::int) = 0 \<longrightarrow> rest = [] \<and> fdiv (1 / 1000) (real_of_int 0) = PInf"
    by auto
  from s(2) obtain l where l: "spots = [l]" by (cases spots) auto
  from i p s z l v show ?thesis by (auto simp: fresh_scene_def)
qed

subsection \<open>Spot light directions\<close>

lemma normalize_vec_unit:
  assumes "dot v v \<noteq> 0"
  shows "dot (normalize_vec v) (normalize_vec v) = 1"
proof -
  obtain a b c where v: "v = (a, b, c)" by (cases v) auto
  define d where "d = a * a + b * b + c * c"
  define k where "k = 1 / sqrt d"
  have nn: "0 \<le> d" by (simp add: d_def)
  have "d \<noteq> 0" using assms by (simp add: v d_def)
  with nn have pos: "0 < d" by linarith
  have kk: "k * k = 1 / d"
    using nn by (simp add: k_def)
  have "normalize_vec v = (a * k, b * k, c * k)"
    by (simp add: v normalize_vec_def d_def k_def)
  then have "dot (normalize_vec v) (normalize_vec v) = d * (k * k)"
    by (simp add: d_def algebra_simps)
  also have "\<dots> = 1" using pos by (simp add: kk)
  finally show ?thesis .
qed

lemma trajectory_off_origin:
  "dot (vsub origin (vadd offset (vmul (lissajous p t) scale)))
       (vsub origin (vadd offset (vmul (lissajous p t) scale))) \<noteq> 0"
proof -
  obtain px py pz pw where p: "p = (px, py, pz, pw)" by (cases p) auto
  define X where "X = sin (px * t) * 13"
  define Y where "Y = 3 + cos (py * t) * 2"
  define Z where "Z = sin (pz * t) * cos (pw * t) * 13"
  have "- 1 \<le> cos (py * t)" by simp
  then have y: "0 < Y" unfolding Y_def by linarith
  have v: "vsub origin (vadd offset (vmul (lissajous p t) scale)) = (- X, - Y, - Z)"
    by (simp add: p origin_def offset_def scale_def X_def Y_def Z_def)
  have "0 < Y * Y" using y by simp
  moreover have "0 \<le> X * X" by (rule zero_le_square)
  moreover have "0 \<le> Z * Z" by (rule zero_le_square)
  ultimately have "0 < X * X + Y * Y + Z * Z" by linarith
  then show ?thesis unfolding v by simp
qed

lemma move_spot_aims_at_origin:
  "direction (move_spot t l) = normalize_vec (vsub origin (position (move_spot t l))) \<and>
   dot (direction (move_spot t l)) (direction (move_spot t l)) = 1"
  using normalize_vec_unit [OF trajectory_off_origin [of "movement l" t]]
  by (simp add: move_spot_def)

lemma lights_inv_Init:
  assumes "vao s = 0" "spotLights s = []" "0 \<le> nc" "0 \<le> np" "0 \<le> ns"
    and "Init env gr nc np ns (s, k) = Inr (s', k')"
  shows "lights_inv s' \<and> numSpotLights s' = ns \<and> length (spotLights s') = nat ns"
  using assms(6) assms(2) unfolding Init_closed [OF assms(1,3,4,5)]
  by (auto simp: lights_inv_def)

text \<open>
  Claim C10. After \<open>Init\<close> on a fresh scene the direction of every spot light is the raw
  triple of samples that \<^verbatim>\<open>getRandom(-2, 2)\<close> returned for it, each in the range from -2 to 2
  when \<^verbatim>\<open>getRandom\<close> keeps to its range: \<open>Init\<close> neither normalises it nor aims it at the
  origin. After one or more calls of \<open>Update\<close> the direction of every spot light is
  \<open>normalize (origin - position)\<close>, a vector of length one.
\<close>

theorem spot_direction_raw_until_Update:
  assumes "vao s = 0" "spotLights s = []" "0 \<le> nc" "0 \<le> np" "0 \<le> ns"
  shows "\<exists>s' k'.
     Init env gr nc np ns (s, k) = Inr (s', k') \<and>
     (\<forall>i. i < nat ns \<longrightarrow>
        direction (spotLights s' ! i) =
          (gr (k + 3 * nat (nc - 1) + 7 * nat (np - 1) + 10 * i + 7) (- 2) 2,
           gr (k + 3 * nat (nc - 1) + 7 * nat (np - 1) + 10 * i + 8) (- 2) 2,
           gr (k + 3 * nat (nc - 1) + 7 * nat (np - 1) + 10 * i + 9) (- 2) 2)) \<and>
     ((\<forall>j lo hi. lo \<le> hi \<longrightarrow> lo \<le> gr j lo hi \<and> gr j lo hi \<le> hi) \<longrightarrow>
      (\<forall>i. i < nat ns \<longrightarrow>
         - 2 \<le> vx (direction (spotLights s' ! i)) \<and> vx (direction (spotLights s' ! i)) \<le> 2 \<and>
         - 2 \<le> vy (direction (spotLights s' ! i)) \<and> vy (direction (spotLights s' ! i)) \<le> 2 \<and>
         - 2 \<le> vz (direction (spotLights s' ! i)) \<and> vz (direction (spotLights s' ! i)) \<le> 2)) \<and>
     (\<forall>dts dt. \<exists>s'' t.
        Updates (dts @ [dt]) (s', 0) = Inr (s'', t) \<and>
        (\<forall>i. i < nat ns \<longrightarrow>
           direction (spotLights s'' ! i)
             = normalize_vec (vsub origin (position (spotLights s'' ! i))) \<and>
           dot (direction (spotLights s'' ! i)) (direction (spotLights s'' ! i)) = 1))"
proof -
  obtain s' k' where i: "Init env gr nc np ns (s, k) = Inr (s', k')"
    unfolding Init_closed [OF assms(1,3,4,5)] by blast
  have sp: "spotLights s' = map (\<lambda>j. random_spotLight gr (fdiv (1 / 1000) (real_of_int np))
                     (k + 3 * nat (nc - 1) + 7 * nat (np - 1) + 10 * j)) [0..<nat ns]"
    using i assms(2) unfolding Init_closed [OF assms(1,3,4,5)] by auto
  have raw: "direction (spotLights s' ! i) =
          (gr (k + 3 * nat (nc - 1) + 7 * nat (np - 1) + 10 * i + 7) (- 2) 2,
           gr (k + 3 * nat (nc - 1) + 7 * nat (np - 1) + 10 * i + 8) (- 2) 2,
           gr (k + 3 * nat (nc - 1) + 7 * nat (np - 1) + 10 * i + 9) (- 2) 2)"
    if "i < nat ns" for i
    using that by (simp add: sp random_spotLight_def add.assoc)
  have rng: "- 2 \<le> vx (direction (spotLights s' ! i)) \<and> vx (direction (spotLights s' ! i)) \<le> 2 \<and>
         - 2 \<le> vy (direction (spotLights s' ! i)) \<and> vy (direction (spotLights s' ! i)) \<le> 2 \<and>
         - 2 \<le> vz (direction (spotLights s' ! i)) \<and> vz (direction (spotLights s' ! i)) \<le> 2"
    if "\<forall>j lo hi. lo \<le> hi \<longrightarrow> lo \<le> gr j lo hi \<and> gr j lo hi \<le> hi" "i < nat ns" for i
  proof -
    have "- 2 \<le> gr j (- 2) 2 \<and> gr j (- 2) 2 \<le> 2" for j
      using that(1) [rule_format, of "- 2" 2 j] by simp
    then show ?thesis unfolding raw [OF that(2)] by simp
  qed
  from lights_inv_Init [OF assms i]
  have inv: "lights_inv s'" and n: "numSpotLights s' = ns" and len: "length (spotLights s') = nat ns"
    by simp_all
  have upd: "\<exists>s'' t.
        Updates (dts @ [dt]) (s', 0) = Inr (s'', t) \<and>
        (\<forall>i. i < nat ns \<longrightarrow>
           direction (spotLights s'' ! i)
             = normalize_vec (vsub origin (position (spotLights s'' ! i))) \<and>
           dot (direction (spotLights s'' ! i)) (direction (spotLights s'' ! i)) = 1)" for dts dt
  proof -
    have "direction (spotLights (trajectories (sum_list dts) s') ! i)
             = normalize_vec (vsub origin (position (spotLights (trajectories (sum_list dts) s') ! i))) \<and>
           dot (direction (spotLights (trajectories (sum_list dts) s') ! i))
               (direction (spotLights (trajectories (sum_list dts) s') ! i)) = 1"
      if "i < nat ns" for i
    proof -
      have eq: "spotLights (trajectories (sum_list dts) s') ! i
          = move_spot (sum_list dts) (spotLights s' ! i)"
        using that len n by (simp add: trajectories_def nth_enumerate_eq)
      show ?thesis unfolding eq by (rule move_spot_aims_at_origin)
    qed
    then have A: "\<forall>i. i < nat ns \<longrightarrow>
        direction (spotLights (trajectories (sum_list dts) s') ! i)
             = normalize_vec (vsub origin (position (spotLights (trajectories (sum_list dts) s') ! i))) \<and>
           dot (direction (spotLights (trajectories (sum_list dts) s') ! i))
               (direction (spotLights (trajectories (sum_list dts) s') ! i)) = 1"
      by blast
    have U: "Updates (dts @ [dt]) (s', 0)
        = Inr (trajectories (sum_list dts) s', sum_list dts + dt)"
      using Updates_closed [OF inv, of dts dt 0] by simp
    from U A show ?thesis by blast
  qed
  from i raw rng upd show ?thesis by blast
qed

theorem spot_direction_raw_until_Update_witness:
  "vao fresh_scene = 0 \<and> spotLights fresh_scene = [] \<and>
   (\<exists>s' k'. Init example_env upper_rng 1 2 1 (fresh_scene, 0) = Inr (s', k') \<and>
      direction (spotLights s' ! 0) = (2, 2, 2) \<and>
      dot (direction (spotLights s' ! 0)) (direction (spotLights s' ! 0)) = 12 \<and>
      normalize_vec (vsub origin (position (spotLights s' ! 0))) = (0, - 1, 0) \<and>
      (\<exists>s'' t. Updates [1, 2] (s', 0) = Inr (s'', t) \<and>
         direction (spotLights s'' ! 0)
           = normalize_vec (vsub origin (position (spotLights s'' ! 0))) \<and>
         dot (direction (spotLights s'' ! 0)) (direction (spotLights s'' ! 0)) = 1))"
proof -
  have v: "vao fresh_scene = 0" and e: "spotLights fresh_scene = []"
    by (simp_all add: fresh_scene_def)
  from spot_direction_raw_until_Update [OF v e, of 1 2 1 example_env upper_rng 0]
  obtain s' k' where
    i: "Init example_env upper_rng 1 2 1 (fresh_scene, 0) = Inr (s', k')" and
    raw: "\<forall>i. i < nat 1 \<longrightarrow>
        direction (spotLights s' ! i) =
          (upper_rng (0 + 3 * nat (1 - 1) + 7 * nat (2 - 1) + 10 * i + 7) (- 2) 2,
           upper_rng (0 + 3 * nat (1 - 1) + 7 * nat (2 - 1) + 10 * i + 8) (- 2) 2,
           upper_rng (0 + 3 * nat (1 - 1) + 7 * nat (2 - 1) + 10 * i + 9) (- 2) 2)" and
    upd: "\<forall>dts dt. \<exists>s'' t.
        Updates (dts @ [dt]) (s', 0) = Inr (s'', t) \<and>
        (\<forall>i. i < nat 1 \<longrightarrow>
           direction (spotLights s'' ! i)
             = normalize_vec (vsub origin (position (spotLights s'' ! i))) \<and>
           dot (direction (spotLights s'' ! i)) (direction (spotLights s'' ! i)) = 1)"
    by auto
  from i example_scene_is_Init have s': "s' = example_scene" by simp
  from raw have d: "direction (spotLights s' ! 0) = (2, 2, 2)"
    by (simp add: upper_rng_def)
  have p: "normalize_vec (vsub origin (position (spotLights s' ! 0))) = (0, - 1, 0)"
    by (simp add: s' example_scene_def normalize_vec_def origin_def)
  from upd [rule_format, of "[1]" 2] obtain s'' t where
    "Updates [1, 2] (s', 0) = Inr (s'', t)"
    "direction (spotLights s'' ! 0)
           = normalize_vec (vsub origin (position (spotLights s'' ! 0))) \<and>
         dot (direction (spotLights s'' ! 0)) (direction (spotLights s'' ! 0)) = 1"
    by auto
  with v e i d p show ?thesis by (auto simp: d)
qed

subsection \<open>The transform block of a spot light\<close>

text \<open>
  Claim C4. For a spot light index in range, \<open>UpdateTransformBlockSingleSpotLight\<close> uploads,
  as world-to-view matrix, the (transposed, three column) look-at matrix from the light's
  position towards position plus direction with the y axis up, and as projection the
  perspective matrix of a field of view of 45 degrees (\<open>pi / 4\<close>), aspect ratio
  \<open>1024 / 1024 = 1\<close>, near plane 0.1 and far plane 1000.1.
\<close>

theorem spot_light_capture_transform:
  assumes "0 \<le> light" "nat \<lfloor>light\<rfloor> < length (spotLights s)"
  shows "UpdateTransformBlockSingleSpotLight s light =
     Inr [glBindBuffer GL_UNIFORM_BUFFER (transformBlockUBO s),
          glBufferSubData GL_UNIFORM_BUFFER 0 48
            (Mat3x4 (Transpose (LookAt
               (position (spotLights s ! nat \<lfloor>light\<rfloor>))
               (vadd (position (spotLights s ! nat \<lfloor>light\<rfloor>))
                     (direction (spotLights s ! nat \<lfloor>light\<rfloor>)))
               (0, 1, 0)))),
          glBufferSubData GL_UNIFORM_BUFFER 48 64 (Perspective (pi / 4) 1 (1 / 10) (10001 / 10)),
          glBindBuffer GL_UNIFORM_BUFFER 0]"
  using assms
  by (simp add: UpdateTransformBlockSingleSpotLight_def Let_def radians_def
      sizeof_mat3x4_def sizeof_mat4x4_def)

theorem spot_light_capture_transform_witness:
  "UpdateTransformBlockSingleSpotLight example_scene 0 =
     Inr [glBindBuffer GL_UNIFORM_BUFFER 2,
          glBufferSubData GL_UNIFORM_BUFFER 0 48
            (Mat3x4 (Transpose (LookAt (0, 5, 0) (2, 7, 2) (0, 1, 0)))),
          glBufferSubData GL_UNIFORM_BUFFER 48 64 (Perspective (pi / 4) 1 (1 / 10) (10001 / 10)),
          glBindBuffer GL_UNIFORM_BUFFER 0]"
  using spot_light_capture_transform [of 0 example_scene]
  by (simp add: example_scene_def)

subsection \<open>The instance buffer\<close>

declare UpdateInstanceData_loop.simps [simp del]

lemma UpdateInstanceData_loop_closed:
  "0 \<le> i \<Longrightarrow> nat (numCubes s) \<le> length (cubePositions s) \<Longrightarrow> nat (numCubes s) \<le> length d \<Longrightarrow>
   UpdateInstanceData_loop s i d =
     Inr (map (\<lambda>(j, e). if i \<le> int j \<and> int j < numCubes s then instance_entry s j else e)
            (enumerate 0 d))"
proof (induction s i d rule: UpdateInstanceData_loop.induct)
  case (1 s i d)
  show ?case
  proof (cases "i < numCubes s")
    case False
    have "map (\<lambda>(j, e). if i \<le> int j \<and> int j < numCubes s then instance_entry s j else e)
            (enumerate 0 d) = d"
      using False by (intro nth_equalityI) (auto simp: nth_enumerate_eq)
    with False show ?thesis by (simp add: UpdateInstanceData_loop.simps [of s i d])
  next
    case True
    with "1.prems" have inb: "nat i < length (cubePositions s)" "nat i < length d" by linarith+
    have c1: "\<not> (i < 0 \<or> length (cubePositions s) \<le> nat i)" using "1.prems" inb by simp
    have c2: "\<not> length d \<le> nat i" using inb by simp
    let ?d' = "d[nat i := instance_entry s (nat i)]"
    have "UpdateInstanceData_loop s i d = UpdateInstanceData_loop s (i + 1) ?d'"
      using True c1 c2 "1.prems"(1)
      by (simp add: UpdateInstanceData_loop.simps [of s i d] instance_entry_def)
    also have "\<dots> = Inr (map (\<lambda>(j, e). if i + 1 \<le> int j \<and> int j < numCubes s
                  then instance_entry s j else e) (enumerate 0 ?d'))"
      using "1.IH" [OF True c1 c2] "1.prems" by (simp add: instance_entry_def)
    also have "map (\<lambda>(j, e). if i + 1 \<le> int j \<and> int j < numCubes s
                  then instance_entry s j else e) (enumerate 0 ?d')
        = map (\<lambda>(j, e). if i \<le> int j \<and> int j < numCubes s then instance_entry s j else e)
            (enumerate 0 d)"
      using True inb "1.prems"
      by (intro nth_equalityI) (auto simp: nth_enumerate_eq nth_list_update)
    finally show ?thesis .
  qed
qed

lemma UpdateInstanceData_loop_overflow:
  "0 \<le> i \<Longrightarrow> nat i \<le> length d \<Longrightarrow> length d < nat (numCubes s) \<Longrightarrow>
   nat (numCubes s) \<le> length (cubePositions s) \<Longrightarrow>
   UpdateInstanceData_loop s i d = Inl (OutOfBounds InstanceDataVec)"
proof (induction s i d rule: UpdateInstanceData_loop.induct)
  case (1 s i d)
  from "1.prems" have lt: "i < numCubes s" and c1: "\<not> (i < 0 \<or> length (cubePositions s) \<le> nat i)"
    by linarith+
  show ?case
  proof (cases "length d \<le> nat i")
    case True
    with lt c1 show ?thesis by (simp add: UpdateInstanceData_loop.simps [of s i d])
  next
    case False
    have "UpdateInstanceData_loop s i d = UpdateInstanceData_loop s (i + 1)
        (d[nat i := \<lparr>transformation = Mat3x4 (Transpose (Mul (Translate (cubePositions s ! nat i))
                       (Rotate (radians (real_of_int i * 20)) (1, 1, 1))))\<rparr>])"
      using lt c1 False by (simp add: UpdateInstanceData_loop.simps [of s i d])
    also have "\<dots> = Inl (OutOfBounds InstanceDataVec)"
      using "1.prems" False by (intro "1.IH" [OF lt c1 False]) auto
    finally show ?thesis .
  qed
qed

lemma memcpy_size_exact:
  assumes "0 \<le> n" "n \<le> 1024"
  shows "unat (word_of_int n * word_of_nat sizeof_InstanceData :: 64 word) = nat n * 48"
proof -
  have "word_of_int n = (word_of_nat (nat n) :: 64 word)" using assms by simp
  then have e: "(word_of_int n * word_of_nat sizeof_InstanceData :: 64 word)
      = word_of_nat (nat n * 48)"
    by (simp add: sizeof_InstanceData_def)
  have lt: "nat n * 48 < 2 ^ LENGTH(64)" using assms by simp
  show ?thesis unfolding e unat_of_nat by (rule mod_less [OF lt])
qed

lemma UpdateInstanceData_closed:
  assumes "0 \<le> numCubes s" "nat (numCubes s) \<le> length (cubePositions s)"
    "length d = MAX_INSTANCES" "numCubes s \<le> int MAX_INSTANCES"
  shows "UpdateInstanceData s d =
     Inr (map (\<lambda>(j, e). if 0 \<le> int j \<and> int j < numCubes s then instance_entry s j else e)
            (enumerate 0 d),
          [glBindBufferBase GL_UNIFORM_BUFFER 1 (instancingBuffer s),
           glMapBuffer GL_UNIFORM_BUFFER,
           memcpy (map (instance_entry s) [0..<nat (numCubes s)])
             (word_of_nat (nat (numCubes s) * sizeof_InstanceData)),
           glUnmapBuffer GL_UNIFORM_BUFFER,
           glBindBufferBase GL_UNIFORM_BUFFER 1 0])"
proof -
  let ?n = "nat (numCubes s)"
  let ?d' = "map (\<lambda>(j, e). if 0 \<le> int j \<and> int j < numCubes s then instance_entry s j else e)
            (enumerate 0 d)"
  from assms have n: "?n \<le> length d" "numCubes s \<le> 1024"
    by (simp_all add: MAX_INSTANCES_def)
  have loop: "UpdateInstanceData_loop s 0 d = Inr ?d'"
    by (rule UpdateInstanceData_loop_closed [OF _ assms(2) n(1)]) simp
  have w: "(word_of_int (numCubes s) * word_of_nat sizeof_InstanceData :: 64 word)
      = word_of_nat (?n * sizeof_InstanceData)"
    using assms(1) by simp
  have sz: "unat (word_of_nat (?n * sizeof_InstanceData) :: 64 word) = ?n * sizeof_InstanceData"
    using memcpy_size_exact [OF assms(1) n(2)] unfolding w
    by (simp add: sizeof_InstanceData_def)
  have tk: "take ?n ?d' = map (instance_entry s) [0..<?n]"
    using n(1) by (intro nth_equalityI) (auto simp: nth_enumerate_eq)
  have fits: "\<not> length ?d' * sizeof_InstanceData < ?n * sizeof_InstanceData"
    using n(1) by (simp add: sizeof_InstanceData_def)
  show ?thesis
    unfolding UpdateInstanceData_def loop w Let_def sz
    using fits tk by (simp add: sizeof_InstanceData_def)
qed

text \<open>
  Claim C6. Let the scene hold at least \<open>numCubes\<close> cube positions, \<open>numCubes\<close> not
  negative, and let the CPU-side instance array have \<open>MAX_INSTANCES = 1024\<close> entries. If
  \<open>numCubes \<le> MAX_INSTANCES\<close>, then \<open>UpdateInstanceData\<close> returns, writes the entries
  below \<open>numCubes\<close> only (the array keeps its length and its other entries), and copies
  exactly \<open>numCubes * sizeof(InstanceData)\<close> bytes, the entries written, into the mapped
  instance buffer. If \<open>numCubes > MAX_INSTANCES\<close>, it writes beyond the end of the array;
  and it writes or reads beyond the array in that case only.
\<close>

theorem UpdateInstanceData_within_bounds:
  assumes "0 \<le> numCubes s" "nat (numCubes s) \<le> length (cubePositions s)"
    "length d = MAX_INSTANCES"
  shows
   "(numCubes s \<le> int MAX_INSTANCES \<longrightarrow>
       (\<exists>d'. UpdateInstanceData s d =
               Inr (d', [glBindBufferBase GL_UNIFORM_BUFFER 1 (instancingBuffer s),
                         glMapBuffer GL_UNIFORM_BUFFER,
                         memcpy (map (instance_entry s) [0..<nat (numCubes s)])
                           (word_of_nat (nat (numCubes s) * sizeof_InstanceData)),
                         glUnmapBuffer GL_UNIFORM_BUFFER,
                         glBindBufferBase GL_UNIFORM_BUFFER 1 0]) \<and>
          length d' = MAX_INSTANCES \<and>
          (\<forall>j. j < nat (numCubes s) \<longrightarrow> d' ! j = instance_entry s j) \<and>
          (\<forall>j. nat (numCubes s) \<le> j \<and> j < MAX_INSTANCES \<longrightarrow> d' ! j = d ! j)) \<and>
       unat (word_of_nat (nat (numCubes s) * sizeof_InstanceData) :: 64 word)
         = nat (numCubes s) * sizeof_InstanceData) \<and>
    (int MAX_INSTANCES < numCubes s \<longrightarrow>
       UpdateInstanceData s d = Inl (OutOfBounds InstanceDataVec)) \<and>
    (UpdateInstanceData s d = Inl (OutOfBounds InstanceDataVec) \<longrightarrow>
       int MAX_INSTANCES < numCubes s)"
proof -
  let ?n = "nat (numCubes s)"
  let ?d' = "map (\<lambda>(j, e). if 0 \<le> int j \<and> int j < numCubes s then instance_entry s j else e)
            (enumerate 0 d)"
  have small: "(\<exists>d'. UpdateInstanceData s d =
               Inr (d', [glBindBufferBase GL_UNIFORM_BUFFER 1 (instancingBuffer s),
                         glMapBuffer GL_UNIFORM_BUFFER,
                         memcpy (map (instance_entry s) [0..<?n])
                           (word_of_nat (?n * sizeof_InstanceData)),
                         glUnmapBuffer GL_UNIFORM_BUFFER,
                         glBindBufferBase GL_UNIFORM_BUFFER 1 0]) \<and>
          length d' = MAX_INSTANCES \<and>
          (\<forall>j. j < ?n \<longrightarrow> d' ! j = instance_entry s j) \<and>
          (\<forall>j. ?n \<le> j \<and> j < MAX_INSTANCES \<longrightarrow> d' ! j = d ! j)) \<and>
       unat (word_of_nat (?n * sizeof_InstanceData) :: 64 word) = ?n * sizeof_InstanceData"
    if le: "numCubes s \<le> int MAX_INSTANCES"
  proof -
    from le assms have n: "?n \<le> length d" "numCubes s \<le> 1024"
      by (simp_all add: MAX_INSTANCES_def)
    have w: "(word_of_int (numCubes s) * word_of_nat sizeof_InstanceData :: 64 word)
        = word_of_nat (?n * sizeof_InstanceData)"
      using assms(1) by simp
    have sz: "unat (word_of_nat (?n * sizeof_InstanceData) :: 64 word) = ?n * sizeof_InstanceData"
      using memcpy_size_exact [OF assms(1) n(2)] unfolding w
      by (simp add: sizeof_InstanceData_def)
    have len: "length ?d' = MAX_INSTANCES" using assms(3) by simp
    note UpdateInstanceData_closed [OF assms le]
    moreover have "?d' ! j = instance_entry s j" if "j < ?n" for j
      using that n(1) by (simp add: nth_enumerate_eq)
    moreover have "?d' ! j = d ! j" if "?n \<le> j" "j < MAX_INSTANCES" for j
      using that assms(3) by (simp add: nth_enumerate_eq)
    ultimately show ?thesis using len sz by blast
  qed
  have big: "UpdateInstanceData s d = Inl (OutOfBounds InstanceDataVec)"
    if "int MAX_INSTANCES < numCubes s"
  proof -
    from that assms(3) have "length d < ?n" by linarith
    then have "UpdateInstanceData_loop s 0 d = Inl (OutOfBounds InstanceDataVec)"
      by (intro UpdateInstanceData_loop_overflow assms(2)) simp_all
    then show ?thesis by (simp add: UpdateInstanceData_def)
  qed
  have only: "int MAX_INSTANCES < numCubes s"
    if "UpdateInstanceData s d = Inl (OutOfBounds InstanceDataVec)"
  proof (rule ccontr)
    assume "\<not> int MAX_INSTANCES < numCubes s"
    then have "numCubes s \<le> int MAX_INSTANCES" by simp
    from small [OF this] that show False by auto
  qed
  from small big only show ?thesis by blast
qed

theorem UpdateInstanceData_within_bounds_witness:
  "(\<exists>d'. UpdateInstanceData example_scene (replicate 1024 \<lparr>transformation = Matrix []\<rparr>) =
      Inr (d', [glBindBufferBase GL_UNIFORM_BUFFER 1 1,
                glMapBuffer GL_UNIFORM_BUFFER,
                memcpy [instance_entry example_scene 0] 48,
                glUnmapBuffer GL_UNIFORM_BUFFER,
                glBindBufferBase GL_UNIFORM_BUFFER 1 0]) \<and>
      length d' = 1024) \<and>
   UpdateInstanceData
     (example_scene\<lparr>numCubes := 1025, cubePositions := replicate 1025 (0, 0, 0)\<rparr>)
     (replicate 1024 \<lparr>transformation = Matrix []\<rparr>) = Inl (OutOfBounds InstanceDataVec)"
proof -
  have a: "0 \<le> numCubes example_scene"
      "nat (numCubes example_scene) \<le> length (cubePositions example_scene)"
      "numCubes example_scene \<le> int MAX_INSTANCES"
    by (simp_all add: example_scene_def MAX_INSTANCES_def)
  have l: "length (replicate 1024 \<lparr>transformation = Matrix []\<rparr>) = MAX_INSTANCES"
    by (simp add: MAX_INSTANCES_def)
  have n: "nat (numCubes example_scene) = 1" "instancingBuffer example_scene = 1"
    by (simp_all add: example_scene_def)
  let ?big = "example_scene\<lparr>numCubes := 1025, cubePositions := replicate 1025 (0, 0, 0)\<rparr>"
  have b: "0 \<le> numCubes ?big" "nat (numCubes ?big) \<le> length (cubePositions ?big)"
      "int MAX_INSTANCES < numCubes ?big"
    by (simp_all add: MAX_INSTANCES_def)
  from UpdateInstanceData_within_bounds [OF a(1,2) l] a(3)
       UpdateInstanceData_within_bounds [OF b(1,2) l] b(3)
  show ?thesis
    unfolding n by (auto simp: MAX_INSTANCES_def sizeof_InstanceData_def)
qed

subsection \<open>The shadow-volume pass\<close>

declare Draw_pointLights.simps [simp del] Draw_spotLights.simps [simp del]

lemma RenderPass_bits [simp]:
  "RenderPass_int ShadowPass OR RenderPass_int LightPass = 30"
  "(1::int) AND 30 = 0" "(2::int) AND 30 = 2" "(4::int) AND 30 = 4" "(8::int) AND 30 = 8"
  "(1::int) AND 12 = 0" "(2::int) AND 12 = 0" "(4::int) AND 12 = 4" "(8::int) AND 12 = 8"
  "(1::int) AND 4 = 0" "(2::int) AND 4 = 0" "(4::int) AND 4 = 4" "(8::int) AND 4 = 0"
  "(1::int) AND 8 = 0" "(2::int) AND 8 = 0" "(4::int) AND 8 = 0" "(8::int) AND 8 = 8"
  "(1::int) AND 2 = 0" "(2::int) AND 2 = 2" "(4::int) AND 2 = 0" "(8::int) AND 2 = 0"
  by simp_all

lemma shadowVolumePass_calls:
  assumes "cubeAdjacency s = Some m"
  shows "shadowVolumePass env s cam carmackReverse (px, py, pz) lightColor =
     Inr ([glDisable GL_CULL_FACE, glStencilFunc GL_ALWAYS 0 255] @
          (if carmackReverse
           then [glStencilOpSeparate GL_BACK GL_KEEP GL_INCR_WRAP GL_KEEP,
                 glStencilOpSeparate GL_FRONT GL_KEEP GL_DECR_WRAP GL_KEEP]
           else [glStencilOpSeparate GL_BACK GL_KEEP GL_KEEP GL_DECR_WRAP,
                 glStencilOpSeparate GL_FRONT GL_KEEP GL_KEEP GL_INCR_WRAP]) @
          [glUseProgram (shaderProgram env InstancedShadowVolume),
           glUniform4f (glGetUniformLocation env (shaderProgram env InstancedShadowVolume)
             ''lightPosWS'') (Fin px) (Fin py) (Fin pz) (Fin 0),
           glBindBufferBase GL_UNIFORM_BUFFER 1 (instancingBuffer s),
           glBindVertexArray (GetVAO m),
           glDrawElementsInstanced GL_TRIANGLES_ADJACENCY (GetIBOSize m) (numCubes s),
           glBindBufferBase GL_UNIFORM_BUFFER 1 0,
           glEnable GL_CULL_FACE])"
  using assms
  by (cases lightColor)
     (simp add: shadowVolumePass_def DrawObjects_def UpdateProgramData_def)

text \<open>
  Claim C2. The shadow-volume pass returns (the adjacency mesh being there) and issues one
  draw call. At that call the stencil function is \<open>GL_ALWAYS\<close>; with \<open>carmackReverse\<close> the
  back faces have \<open>GL_INCR_WRAP\<close> and the front faces \<open>GL_DECR_WRAP\<close> as the operation on
  depth fail (the second of the three), and \<open>GL_KEEP\<close> otherwise; without it the back
  faces have \<open>GL_DECR_WRAP\<close> and the front faces \<open>GL_INCR_WRAP\<close> as the operation on depth
  pass (the third), and \<open>GL_KEEP\<close> otherwise. Face culling is off after every call of the
  pass but the last, which turns it on again.
\<close>

theorem shadowVolumePass_stencil_setup:
  assumes "cubeAdjacency s = Some m"
  shows "\<exists>cs. shadowVolumePass env s cam carmackReverse lightPosition lightColor = Inr cs \<and>
     map stencil_func (draw_states st cs) = [(GL_ALWAYS, 0, 255)] \<and>
     map stencil_op_back (draw_states st cs) =
       [if carmackReverse then (GL_KEEP, GL_INCR_WRAP, GL_KEEP)
        else (GL_KEEP, GL_KEEP, GL_DECR_WRAP)] \<and>
     map stencil_op_front (draw_states st cs) =
       [if carmackReverse then (GL_KEEP, GL_DECR_WRAP, GL_KEEP)
        else (GL_KEEP, GL_KEEP, GL_INCR_WRAP)] \<and>
     map cull_face (draw_states st cs) = [False] \<and>
     map cull_face (gl_states st cs) = replicate (length cs - 1) False @ [True]"
proof -
  obtain px py pz where p: "lightPosition = (px, py, pz)" by (cases lightPosition) auto
  show ?thesis
    unfolding p shadowVolumePass_calls [OF assms]
    by (cases carmackReverse) (simp_all add: numeral_eq_Suc)
qed

theorem shadowVolumePass_stencil_setup_witness:
  "cubeAdjacency example_scene = Some \<lparr>GetVAO = 3, GetIBOSize = 72\<rparr> \<and>
   (\<exists>cs. shadowVolumePass example_draw_env example_scene example_camera True
            (- 3, 3, 0) (10, 10, 10, Fin (1 / 2000)) = Inr cs \<and>
      map stencil_func (draw_states frame_end_state cs) = [(GL_ALWAYS, 0, 255)] \<and>
      map stencil_op_back (draw_states frame_end_state cs) = [(GL_KEEP, GL_INCR_WRAP, GL_KEEP)] \<and>
      map stencil_op_front (draw_states frame_end_state cs) = [(GL_KEEP, GL_DECR_WRAP, GL_KEEP)]) \<and>
   (\<exists>cs. shadowVolumePass example_draw_env example_scene example_camera False
            (- 3, 3, 0) (10, 10, 10, Fin (1 / 2000)) = Inr cs \<and>
      map stencil_func (draw_states frame_end_state cs) = [(GL_ALWAYS, 0, 255)] \<and>
      map stencil_op_back (draw_states frame_end_state cs) = [(GL_KEEP, GL_KEEP, GL_DECR_WRAP)] \<and>
      map stencil_op_front (draw_states frame_end_state cs) = [(GL_KEEP, GL_KEEP, GL_INCR_WRAP)])"
proof -
  have m: "cubeAdjacency example_scene = Some \<lparr>GetVAO = 3, GetIBOSize = 72\<rparr>"
    by (simp add: example_scene_def)
  from shadowVolumePass_stencil_setup [OF m, of example_draw_env example_camera True
         "(- 3, 3, 0)" "(10, 10, 10, Fin (1 / 2000))" frame_end_state]
       shadowVolumePass_stencil_setup [OF m, of example_draw_env example_camera False
         "(- 3, 3, 0)" "(10, 10, 10, Fin (1 / 2000))" frame_end_state]
       m
  show ?thesis by auto
qed

subsection \<open>The passes of a frame\<close>

lemma draw_states_append:
  "draw_states st (a @ b) = draw_states st a @ draw_states (gl_run st a) b"
  by (induction a arbitrary: st) (simp_all add: gl_run_def)

lemma gl_run_append: "gl_run st (a @ b) = gl_run (gl_run st a) b"
  by (simp add: gl_run_def)

lemma gl_run_Nil: "gl_run st [] = st"
  by (simp add: gl_run_def)

lemma depthPass_calls:
  assumes "quad s = Some q" "cube s = Some c"
  shows "depthPass env s cam =
     Inr [glUseProgram (shaderProgram env DefaultDepthPass),
          glBindVertexArray (GetVAO q),
          glUniformMatrix4x3fv 0 (Mat4x3 (Scale (30, 1, 30))),
          glDrawElements GL_TRIANGLES (GetIBOSize q),
          glUniformMatrix4x3fv 0
            (Mat4x3 (Mul (Mul (Translate (0, 0, 15)) (Rotate (- (pi / 2)) (1, 0, 0)))
               (Scale (30, 1, 30)))),
          glDrawElements GL_TRIANGLES (GetIBOSize q),
          glUniformMatrix4x3fv 0
            (Mat4x3 (Mul (Mul (Translate (15, 0, 0)) (Rotate (pi / 2) (0, 0, 1)))
               (Scale (30, 1, 30)))),
          glDrawElements GL_TRIANGLES (GetIBOSize q),
          glUseProgram (shaderProgram env InstancingDepthPass),
          glBindBufferBase GL_UNIFORM_BUFFER 1 (instancingBuffer s),
          glBindVertexArray (GetVAO c),
          glDrawElementsInstanced GL_TRIANGLES (GetIBOSize c) (numCubes s),
          glBindBufferBase GL_UNIFORM_BUFFER 1 0]"
  using assms
  by (simp add: depthPass_def DrawBackground_def DrawObjects_def UpdateProgramData_def)

lemma lightPass_returns:
  assumes "quad s = Some q" "cube s = Some c"
    and "renderPass = DirectLight \<or> renderPass = AmbientLight"
  shows "\<exists>cs. lightPass env s cam renderPass lightPosition lightColor = Inr cs"
  using assms
  by (auto simp: lightPass_def DrawBackground_def DrawObjects_def)

lemma lightPass_view:
  assumes "quad s = Some q" "cube s = Some c"
    and "renderPass = DirectLight \<or> renderPass = AmbientLight"
  shows "map pass_view
           (draw_states st (calls (lightPass env s cam renderPass lightPosition lightColor)))
         = replicate (if renderPass = AmbientLight then 5 else 4) (pass_view st) \<and>
         pass_view (gl_run st (calls (lightPass env s cam renderPass lightPosition lightColor)))
         = pass_view st"
proof -
  obtain px py pz where p: "lightPosition = (px, py, pz)" by (cases lightPosition) auto
  obtain cr cg cb ca where c: "lightColor = (cr, cg, cb, ca)" by (cases lightColor) auto
  from assms(3) show ?thesis
  proof
    assume "renderPass = DirectLight"
    then show ?thesis
      using assms(1,2) unfolding p c
      by (simp add: lightPass_def DrawBackground_def DrawObjects_def UpdateProgramData_def
          BindTextures_def pass_view_def gl_run_def numeral_eq_Suc)
  next
    assume "renderPass = AmbientLight"
    then show ?thesis
      using assms(1,2) unfolding p c
      by (simp add: lightPass_def DrawBackground_def DrawObjects_def UpdateProgramData_def
          BindTextures_def pass_view_def gl_run_def numeral_eq_Suc)
  qed
qed

lemma depth_prime_view:
  assumes "quad s = Some q" "cube s = Some c"
  shows "map pass_view (draw_states st (depth_prime env s cam renderMode))
         = replicate 4 ((False, False, False, False), True, GL_LEQUAL, True) \<and>
         pass_view (gl_run st (depth_prime env s cam renderMode))
         = ((False, False, False, False), True, GL_LEQUAL, False)"
  unfolding depth_prime_def depthPass_calls [OF assms]
  by (simp add: frame_setup_def pass_view_def gl_run_def numeral_eq_Suc)

lemma point_light_passes_view:
  assumes "quad s = Some q" "cube s = Some c" "cubeAdjacency s = Some m"
  shows "map pass_view (draw_states st (point_light_passes env s cam carmackReverse i))
         = ((False, False, False, False), snd (pass_view st)) #
           replicate 9 ((True, True, True, True), snd (pass_view st)) \<and>
         pass_view (gl_run st (point_light_passes env s cam carmackReverse i))
         = ((True, True, True, True), snd (pass_view st))"
proof -
  obtain px py pz where p: "position (pointLights s ! i) = (px, py, pz)"
    by (cases "position (pointLights s ! i)") auto
  let ?pos = "position (pointLights s ! i)" and ?col = "color (pointLights s ! i)"
  define A where "A = [glClear [GL_STENCIL_BUFFER_BIT], glEnable GL_STENCIL_TEST,
             glColorMask False False False False] @
             calls (shadowVolumePass env s cam carmackReverse ?pos ?col) @
             [glColorMask True True True True]"
  define DL where "DL = calls (lightPass env s cam DirectLight ?pos ?col)"
  define AL where "AL = calls (lightPass env s cam AmbientLight ?pos ?col)"
  define st1 where "st1 = gl_run st A"
  define st2 where "st2 = gl_run (gl_run st1 DL) [glDisable GL_STENCIL_TEST]"
  have a: "map pass_view (draw_states st A) = [((False, False, False, False), snd (pass_view st))]"
    and a': "pass_view st1 = ((True, True, True, True), snd (pass_view st))"
    unfolding st1_def A_def p shadowVolumePass_calls [OF assms(3)]
    by (cases carmackReverse; simp add: pass_view_def gl_run_def)+
  have d: "map pass_view (draw_states st1 DL)
        = replicate 4 ((True, True, True, True), snd (pass_view st))"
    and d': "pass_view (gl_run st1 DL) = ((True, True, True, True), snd (pass_view st))"
    using lightPass_view [OF assms(1,2), of DirectLight st1 env cam ?pos ?col] a'
    unfolding DL_def by simp_all
  have st2: "pass_view st2 = ((True, True, True, True), snd (pass_view st))"
    using d' by (simp add: st2_def pass_view_def gl_run_def)
  have am: "map pass_view (draw_states st2 AL)
        = replicate 5 ((True, True, True, True), snd (pass_view st))"
    and am': "pass_view (gl_run st2 AL) = ((True, True, True, True), snd (pass_view st))"
    using lightPass_view [OF assms(1,2), of AmbientLight st2 env cam ?pos ?col] st2
    unfolding AL_def by simp_all
  have split: "point_light_passes env s cam carmackReverse i
      = A @ DL @ [glDisable GL_STENCIL_TEST] @ AL"
    by (simp add: point_light_passes_def A_def DL_def AL_def)
  have ds: "draw_states st (A @ DL @ [glDisable GL_STENCIL_TEST] @ AL)
      = draw_states st A @ draw_states st1 DL @ draw_states st2 AL"
    by (simp add: draw_states_append st1_def st2_def gl_run_def)
  have gr: "gl_run st (A @ DL @ [glDisable GL_STENCIL_TEST] @ AL) = gl_run st2 AL"
    by (simp add: st1_def st2_def gl_run_def)
  show ?thesis
    unfolding split ds gr using a d am am' by (simp add: numeral_eq_Suc)
qed

lemma spot_light_passes_view:
  assumes "quad s = Some q" "cube s = Some c"
  shows "map pass_view (draw_states st (spot_light_passes env s cam i))
         = replicate 5 (pass_view st) \<and>
         pass_view (gl_run st (spot_light_passes env s cam i)) = pass_view st"
proof -
  let ?pos = "position (spotLights s ! i)" and ?col = "color (spotLights s ! i)"
  let ?al = "calls (lightPass env s cam AmbientLight ?pos ?col)"
  let ?a = "[glClear [GL_STENCIL_BUFFER_BIT], glDisable GL_STENCIL_TEST,
             glDisable GL_STENCIL_TEST]"
  have a: "draw_states st ?a = [] \<and> pass_view (gl_run st ?a) = pass_view st"
    by (simp add: pass_view_def gl_run_def)
  have split: "spot_light_passes env s cam i = ?a @ ?al"
    by (simp add: spot_light_passes_def)
  show ?thesis
    unfolding split draw_states_append gl_run_append
    using a lightPass_view [OF assms, of AmbientLight "gl_run st ?a" env cam ?pos ?col]
    by simp
qed

lemma concat_replicate_Suc: "concat (replicate (Suc n) x) = concat (replicate n x) @ x"
  by (induction n) simp_all

lemma replicate_5_Suc: "replicate (5 * Suc n) x = replicate (5 * n) x @ replicate 5 x"
  by (simp add: replicate_add [symmetric])

lemma upt_snoc_concat:
  "concat (map f [0..<Suc n]) = concat (map f [0..<n]) @ f n"
  by simp

lemma point_sections_view:
  assumes "quad s = Some q" "cube s = Some c" "cubeAdjacency s = Some m"
  shows "map pass_view
           (draw_states st (concat (map (point_light_passes env s cam carmackReverse) [0..<n])))
         = concat (replicate n (((False, False, False, False), snd (pass_view st)) #
             replicate 9 ((True, True, True, True), snd (pass_view st)))) \<and>
         pass_view (gl_run st (concat (map (point_light_passes env s cam carmackReverse) [0..<n])))
         = (if n = 0 then pass_view st else ((True, True, True, True), snd (pass_view st)))"
proof (induction n)
  case 0
  show ?case by (simp add: gl_run_Nil)
next
  case (Suc n)
  let ?pre = "concat (map (point_light_passes env s cam carmackReverse) [0..<n])"
  have sn: "snd (pass_view (gl_run st ?pre)) = snd (pass_view st)"
    using Suc by (simp split: if_splits)
  show ?case
    unfolding upt_snoc_concat draw_states_append gl_run_append concat_replicate_Suc
    using Suc point_light_passes_view [OF assms, of "gl_run st ?pre" env cam carmackReverse n] sn
    by simp
qed

lemma spot_sections_view:
  assumes "quad s = Some q" "cube s = Some c"
  shows "map pass_view (draw_states st (concat (map (spot_light_passes env s cam) [0..<n])))
         = replicate (5 * n) (pass_view st) \<and>
         pass_view (gl_run st (concat (map (spot_light_passes env s cam) [0..<n])))
         = pass_view st"
proof (induction n)
  case 0
  show ?case by (simp add: gl_run_Nil)
next
  case (Suc n)
  let ?pre = "concat (map (spot_light_passes env s cam) [0..<n])"
  show ?case
    unfolding upt_snoc_concat draw_states_append gl_run_append replicate_5_Suc
    using Suc spot_light_passes_view [OF assms, of "gl_run st ?pre" env cam n]
    by simp
qed

lemma shadowVolumePass_returns:
  assumes "cubeAdjacency s = Some m"
  shows "\<exists>cs. shadowVolumePass env s cam carmackReverse lightPosition lightColor = Inr cs"
  using shadowVolumePass_calls [OF assms] by (cases lightPosition) auto

lemma Draw_pointLights_closed:
  "quad s = Some q \<Longrightarrow> cube s = Some c \<Longrightarrow> cubeAdjacency s = Some m \<Longrightarrow>
   nat (numPointLights s) \<le> length (pointLights s) \<Longrightarrow> 0 \<le> i \<Longrightarrow>
   Draw_pointLights env s cam carmackReverse i =
     Inr (concat (map (point_light_passes env s cam carmackReverse)
            [nat i..<nat (numPointLights s)]))"
proof (induction env s cam carmackReverse i rule: Draw_pointLights.induct)
  case (1 env s cam carmackReverse i)
  note meshes = "1.prems"(1,2,3)
  show ?case
  proof (cases "i < numPointLights s")
    case False
    then show ?thesis by (simp add: Draw_pointLights.simps [of env s cam carmackReverse i])
  next
    case True
    with "1.prems" have inb: "\<not> (i < 0 \<or> length (pointLights s) \<le> nat i)" by linarith
    let ?pos = "position (pointLights s ! nat i)" and ?col = "color (pointLights s ! nat i)"
    obtain sv where sv: "shadowVolumePass env s cam carmackReverse ?pos ?col = Inr sv"
      using shadowVolumePass_returns [OF meshes(3)] by blast
    obtain dl where dl: "lightPass env s cam DirectLight ?pos ?col = Inr dl"
      using lightPass_returns [OF meshes(1,2), of DirectLight] by blast
    obtain al where al: "lightPass env s cam AmbientLight ?pos ?col = Inr al"
      using lightPass_returns [OF meshes(1,2), of AmbientLight] by blast
    have rest: "Draw_pointLights env s cam carmackReverse (i + 1) =
        Inr (concat (map (point_light_passes env s cam carmackReverse)
            [nat (i + 1)..<nat (numPointLights s)]))"
      using "1.IH" [OF True inb meshes "1.prems"(4)] "1.prems"(5) by simp
    have up: "[nat i..<nat (numPointLights s)] = nat i # [nat (i + 1)..<nat (numPointLights s)]"
      using True "1.prems"(5) by (simp add: upt_conv_Cons nat_add_distrib)
    show ?thesis
      unfolding Draw_pointLights.simps [of env s cam carmackReverse i] up
      using True inb
      by (simp add: sv dl al rest point_light_passes_def [of env s cam carmackReverse "nat i"])
  qed
qed

lemma Draw_spotLights_closed:
  "quad s = Some q \<Longrightarrow> cube s = Some c \<Longrightarrow>
   nat (numSpotLights s) \<le> length (spotLights s) \<Longrightarrow> 0 \<le> i \<Longrightarrow>
   Draw_spotLights env s cam i =
     Inr (concat (map (spot_light_passes env s cam) [nat i..<nat (numSpotLights s)]))"
proof (induction env s cam i rule: Draw_spotLights.induct)
  case (1 env s cam i)
  note meshes = "1.prems"(1,2)
  show ?case
  proof (cases "i < numSpotLights s")
    case False
    then show ?thesis by (simp add: Draw_spotLights.simps [of env s cam i])
  next
    case True
    with "1.prems" have inb: "\<not> (i < 0 \<or> length (spotLights s) \<le> nat i)" by linarith
    let ?pos = "position (spotLights s ! nat i)" and ?col = "color (spotLights s ! nat i)"
    obtain al where al: "lightPass env s cam AmbientLight ?pos ?col = Inr al"
      using lightPass_returns [OF meshes(1,2), of AmbientLight] by blast
    have rest: "Draw_spotLights env s cam (i + 1) =
        Inr (concat (map (spot_light_passes env s cam) [nat (i + 1)..<nat (numSpotLights s)]))"
      using "1.IH" [OF True inb meshes "1.prems"(3)] "1.prems"(4) by simp
    have up: "[nat i..<nat (numSpotLights s)] = nat i # [nat (i + 1)..<nat (numSpotLights s)]"
      using True "1.prems"(4) by (simp add: upt_conv_Cons nat_add_distrib)
    show ?thesis
      unfolding Draw_spotLights.simps [of env s cam i] up
      using True inb by (simp add: al rest spot_light_passes_def [of env s cam "nat i"])
  qed
qed

text \<open>
  Claim C1. On a scene that is ready to be drawn, \<open>Draw\<close> returns, and the calls of the
  frame are, in this order: the uploads; the depth-prime section; for each point light, in
  the order of the indices, the section \<open>point_light_passes\<close> (stencil clear, shadow-volume
  pass, direct-light pass, ambient-light pass); for each spot light, in the order of the
  indices, the section \<open>spot_light_passes\<close> (a stencil clear and the ambient-light pass, no
  direct-light pass); and the call that turns colour writes on. Every pass named returns.
  The draw calls see this pipeline state, whatever the state at the start of the frame: the
  four of the depth-prime pass are issued with colour writes off, the depth test on with
  \<open>GL_LEQUAL\<close>, and depth writes on; every draw call after them with depth writes off; of
  the ten of a point light the first, that of the shadow volume, with colour writes off and
  the other nine with colour writes on.
\<close>

theorem Draw_pass_order:
  assumes "draw_ready s" "length d = MAX_INSTANCES"
  shows "\<exists>d' upload frame.
     UpdateInstanceData s d = Inr (d', upload) \<and>
     Draw env s d cam renderMode carmackReverse = Inr (d', frame) \<and>
     frame =
       UpdateTransformBlock s cam @ upload @
       depth_prime env s cam renderMode @
       concat (map (point_light_passes env s cam carmackReverse)
                 [0..<nat (numPointLights s)]) @
       concat (map (spot_light_passes env s cam) [0..<nat (numSpotLights s)]) @
       [glColorMask True True True True] \<and>
     (\<exists>cs. depthPass env s cam = Inr cs) \<and>
     (\<forall>lp lc. (\<exists>cs. shadowVolumePass env s cam carmackReverse lp lc = Inr cs) \<and>
              (\<exists>cs. lightPass env s cam DirectLight lp lc = Inr cs) \<and>
              (\<exists>cs. lightPass env s cam AmbientLight lp lc = Inr cs)) \<and>
     map pass_view (draw_states st frame) =
       replicate 4 ((False, False, False, False), True, GL_LEQUAL, True) @
       concat (replicate (nat (numPointLights s))
         (((False, False, False, False), True, GL_LEQUAL, False) #
          replicate 9 ((True, True, True, True), True, GL_LEQUAL, False))) @
       replicate (5 * nat (numSpotLights s))
         (if 0 < numPointLights s then (True, True, True, True)
          else (False, False, False, False), True, GL_LEQUAL, False)"
proof -
  from assms(1) obtain q c m where
    meshes: "quad s = Some q" "cube s = Some c" "cubeAdjacency s = Some m"
    by (auto simp: draw_ready_def)
  from assms(1) have cubes: "0 \<le> numCubes s" "nat (numCubes s) \<le> length (cubePositions s)"
      "numCubes s \<le> int MAX_INSTANCES"
    and lights: "nat (numPointLights s) \<le> length (pointLights s)"
      "nat (numSpotLights s) \<le> length (spotLights s)"
    by (auto simp: draw_ready_def lights_inv_def)
  define d' where "d' =
    map (\<lambda>(j, e). if 0 \<le> int j \<and> int j < numCubes s then instance_entry s j else e)
      (enumerate 0 d)"
  define upload where "upload =
    [glBindBufferBase GL_UNIFORM_BUFFER 1 (instancingBuffer s),
     glMapBuffer GL_UNIFORM_BUFFER,
     memcpy (map (instance_entry s) [0..<nat (numCubes s)])
       (word_of_nat (nat (numCubes s) * sizeof_InstanceData)),
     glUnmapBuffer GL_UNIFORM_BUFFER,
     glBindBufferBase GL_UNIFORM_BUFFER 1 0]"
  define U where "U = UpdateTransformBlock s cam @ upload"
  define D where "D = depth_prime env s cam renderMode"
  define P where "P = concat (map (point_light_passes env s cam carmackReverse)
                 [0..<nat (numPointLights s)])"
  define S where "S = concat (map (spot_light_passes env s cam) [0..<nat (numSpotLights s)])"
  have upd: "UpdateInstanceData s d = Inr (d', upload)"
    unfolding d'_def upload_def by (rule UpdateInstanceData_closed [OF cubes(1,2) assms(2) cubes(3)])
  have dp: "depthPass env s cam = Inr (calls (depthPass env s cam))"
    using depthPass_calls [OF meshes(1,2)] by simp
  have pl: "Draw_pointLights env s cam carmackReverse 0 = Inr P"
    using Draw_pointLights_closed [OF meshes lights(1), of 0 env cam carmackReverse]
    by (simp add: P_def)
  have sl: "Draw_spotLights env s cam 0 = Inr S"
    using Draw_spotLights_closed [OF meshes(1,2) lights(2), of 0 env cam]
    by (simp add: S_def)
  have "Draw env s d cam renderMode carmackReverse =
     (case seq (Inr (UpdateTransformBlock s cam @ upload @ frame_setup renderMode @
                       [glColorMask False False False False]))
            (seq (Inr (calls (depthPass env s cam)))
            (seq (Inr [glDepthMask False])
            (seq (Inr P) (seq (Inr S) (Inr [glColorMask True True True True])))))
      of Inl e \<Rightarrow> Inl e | Inr cs \<Rightarrow> Inr (d', cs))"
    unfolding Draw_def upd pl sl using dp by simp
  then have draw: "Draw env s d cam renderMode carmackReverse =
      Inr (d', U @ D @ P @ S @ [glColorMask True True True True])"
    by (simp add: U_def D_def depth_prime_def)
  have nodraw: "draw_states st U = []"
    by (simp add: U_def UpdateTransformBlock_def upload_def)
  define st0 where "st0 = gl_run st U"
  define st1 where "st1 = gl_run st0 D"
  define st2 where "st2 = gl_run st1 P"
  define st3 where "st3 = gl_run st2 S"
  have vD: "map pass_view (draw_states st0 D)
      = replicate 4 ((False, False, False, False), True, GL_LEQUAL, True)"
    and v1: "pass_view st1 = ((False, False, False, False), True, GL_LEQUAL, False)"
    using depth_prime_view [OF meshes(1,2), of st0 env cam renderMode]
    by (simp_all add: D_def st1_def)
  have vP: "map pass_view (draw_states st1 P)
      = concat (replicate (nat (numPointLights s))
         (((False, False, False, False), True, GL_LEQUAL, False) #
          replicate 9 ((True, True, True, True), True, GL_LEQUAL, False)))"
    and v2: "pass_view st2 =
       (if 0 < numPointLights s then (True, True, True, True)
        else (False, False, False, False), True, GL_LEQUAL, False)"
    using point_sections_view [OF meshes, of st1 env cam carmackReverse "nat (numPointLights s)"] v1
    by (simp_all add: P_def st2_def)
  have vS: "map pass_view (draw_states st2 S)
      = replicate (5 * nat (numSpotLights s))
         (if 0 < numPointLights s then (True, True, True, True)
          else (False, False, False, False), True, GL_LEQUAL, False)"
    using spot_sections_view [OF meshes(1,2), of st2 env cam "nat (numSpotLights s)"] v2
    by (simp add: S_def)
  have ds: "draw_states st (U @ D @ P @ S @ [glColorMask True True True True])
      = draw_states st0 D @ draw_states st1 P @ draw_states st2 S"
    by (simp add: draw_states_append nodraw st0_def st1_def st2_def)
  have views: "map pass_view (draw_states st (U @ D @ P @ S @ [glColorMask True True True True])) =
       replicate 4 ((False, False, False, False), True, GL_LEQUAL, True) @
       concat (replicate (nat (numPointLights s))
         (((False, False, False, False), True, GL_LEQUAL, False) #
          replicate 9 ((True, True, True, True), True, GL_LEQUAL, False))) @
       replicate (5 * nat (numSpotLights s))
         (if 0 < numPointLights s then (True, True, True, True)
          else (False, False, False, False), True, GL_LEQUAL, False)"
    unfolding ds by (simp only: map_append vD vP vS)
  have frame: "U @ D @ P @ S @ [glColorMask True True True True] =
       UpdateTransformBlock s cam @ upload @
       depth_prime env s cam renderMode @
       concat (map (point_light_passes env s cam carmackReverse)
                 [0..<nat (numPointLights s)]) @
       concat (map (spot_light_passes env s cam) [0..<nat (numSpotLights s)]) @
       [glColorMask True True True True]"
    by (simp add: U_def D_def P_def S_def)
  have ret: "\<exists>cs. depthPass env s cam = Inr cs"
    using dp by blast
  have rets: "(\<exists>cs. shadowVolumePass env s cam carmackReverse lp lc = Inr cs) \<and>
              (\<exists>cs. lightPass env s cam DirectLight lp lc = Inr cs) \<and>
              (\<exists>cs. lightPass env s cam AmbientLight lp lc = Inr cs)" for lp lc
    using shadowVolumePass_returns [OF meshes(3)] lightPass_returns [OF meshes(1,2)] by blast
  from upd draw frame ret rets views show ?thesis by blast
qed

theorem Draw_pass_order_witness:
  "draw_ready example_scene \<and>
   (\<exists>d' upload frame.
      Draw example_draw_env example_scene (replicate 1024 \<lparr>transformation = Matrix []\<rparr>)
        example_camera example_mode True = Inr (d', frame) \<and>
      frame =
        UpdateTransformBlock example_scene example_camera @ upload @
        depth_prime example_draw_env example_scene example_camera example_mode @
        point_light_passes example_draw_env example_scene example_camera True 0 @
        point_light_passes example_draw_env example_scene example_camera True 1 @
        spot_light_passes example_draw_env example_scene example_camera 0 @
        [glColorMask True True True True] \<and>
      map pass_view (draw_states frame_end_state frame) =
        replicate 4 ((False, False, False, False), True, GL_LEQUAL, True) @
        concat (replicate 2
          (((False, False, False, False), True, GL_LEQUAL, False) #
           replicate 9 ((True, True, True, True), True, GL_LEQUAL, False))) @
        replicate 5 ((True, True, True, True), True, GL_LEQUAL, False))"
proof -
  have r: "draw_ready example_scene"
    by (simp add: draw_ready_def lights_inv_def example_scene_def MAX_INSTANCES_def)
  have l: "length (replicate 1024 \<lparr>transformation = Matrix []\<rparr>) = MAX_INSTANCES"
    by (simp add: MAX_INSTANCES_def)
  have n: "nat (numPointLights example_scene) = 2" "nat (numSpotLights example_scene) = 1"
      "0 < numPointLights example_scene"
    by (simp_all add: example_scene_def)
  have u: "[0..<2] = [0, 1::nat]" "[0..<1] = [0::nat]"
    by (simp_all add: upt_conv_Cons numeral_2_eq_2)
  from Draw_pass_order [OF r l, of example_draw_env example_camera example_mode True
      frame_end_state]
  obtain d' upload frame where
    "Draw example_draw_env example_scene (replicate 1024 \<lparr>transformation = Matrix []\<rparr>)
        example_camera example_mode True = Inr (d', frame)"
    "frame =
       UpdateTransformBlock example_scene example_camera @ upload @
       depth_prime example_draw_env example_scene example_camera example_mode @
       concat (map (point_light_passes example_draw_env example_scene example_camera True)
                 [0..<nat (numPointLights example_scene)]) @
       concat (map (spot_light_passes example_draw_env example_scene example_camera)
                 [0..<nat (numSpotLights example_scene)]) @
       [glColorMask True True True True]"
    "map pass_view (draw_states frame_end_state frame) =
       replicate 4 ((False, False, False, False), True, GL_LEQUAL, True) @
       concat (replicate (nat (numPointLights example_scene))
         (((False, False, False, False), True, GL_LEQUAL, False) #
          replicate 9 ((True, True, True, True), True, GL_LEQUAL, False))) @
       replicate (5 * nat (numSpotLights example_scene))
         (if 0 < numPointLights example_scene then (True, True, True, True)
          else (False, False, False, False), True, GL_LEQUAL, False)"
    by blast
  then show ?thesis
    unfolding n u using r n(3) by (intro conjI exI [of _ d'] exI [of _ upload] exI [of _ frame]) simp_all
qed

end
